theory Spec2Isabelle
  imports Main
begin

section \<open>Thrown values\<close>

text \<open>
  Every value that \<^verbatim>\<open>run.ts\<close> can see thrown.  \<open>Thrown\<close> is a value thrown by one
  of the imported collaborators (queries, deriver, planner, executor, mutation client),
  identified by its message; the other two are the errors \<^verbatim>\<open>run.ts\<close> constructs itself:
  \<^item> \<open>BadArg pr\<close>: line 34, \<^verbatim>\<open>bad PR or PR range argument: "${pr}"\<close>;
  \<^item> \<open>NoRecentlyMerged names\<close>: line 136,
    \<^verbatim>\<open>Could not find the 'Recently Merged' column in ${columns.map(n => n.name)}\<close>.
\<close>

datatype err =
    Thrown string
  | BadArg string
  | NoRecentlyMerged "string list"

section \<open>Command-line tokens and the selection predicate (lines 30-37, 58-59)\<close>

text \<open>
  The coercion of the positional arguments receives \<^verbatim>\<open>(number|string)[]\<close>: the option
  parser has already turned number-like tokens into numbers.  PR numbers are integers
  (GraphQL \<^verbatim>\<open>Int\<close>), so numbers are modelled as \<open>int\<close>; for PR numbers below \<open>2^53\<close>
  the comparisons \<^verbatim>\<open>n === +pr\<close> and \<^verbatim>\<open>lo <= n && n <= hi\<close> on doubles agree with the
  comparisons on the exact decimal values used here.
\<close>

datatype token = TNum int | TStr string

definition is_digit :: "char \<Rightarrow> bool" where
  "is_digit c = (c \<in> set ''0123456789'')"

text \<open>\<^verbatim>\<open>/^\d+$/\<close>: one or more ASCII digits and nothing else.\<close>

definition all_digits :: "string \<Rightarrow> bool" where
  "all_digits s = (s \<noteq> [] \<and> list_all is_digit s)"

text \<open>
  \<^verbatim>\<open>/^(\d+)-(\d+)$/\<close>: the first group is the longest run of leading digits (the
  character after it has to be the dash), the second group is the rest.
\<close>

definition match_range :: "string \<Rightarrow> (string \<times> string) option" where
  "match_range s =
     (let lo = takeWhile is_digit s in
      case dropWhile is_digit s of
        [] \<Rightarrow> None
      | c # hi \<Rightarrow> if c = CHR ''-'' \<and> lo \<noteq> [] \<and> all_digits hi then Some (lo, hi) else None)"

text \<open>Unary plus on a string of decimal digits.\<close>

definition digit_val :: "char \<Rightarrow> int" where
  "digit_val c = of_char c - 48"

definition to_number :: "string \<Rightarrow> int" where
  "to_number s = foldl (\<lambda>a c. 10 * a + digit_val c) 0 s"

fun coerce_pr :: "token \<Rightarrow> err + (int \<Rightarrow> bool)" where
  "coerce_pr (TNum pr) = Inr (\<lambda>n. n = pr)"
| "coerce_pr (TStr pr) =
     (if all_digits pr then Inr (\<lambda>n. n = to_number pr)
      else case match_range pr of
             None \<Rightarrow> Inl (BadArg pr)
           | Some (lo, hi) \<Rightarrow> Inr (\<lambda>n. to_number lo \<le> n \<and> n \<le> to_number hi))"

text \<open>\<^verbatim>\<open>prs.map(...)\<close>: the first token that throws ends the whole coercion.\<close>

fun coerce :: "token list \<Rightarrow> err + (int \<Rightarrow> bool) list" where
  "coerce [] = Inr []"
| "coerce (pr # prs) =
     (case coerce_pr pr of
        Inl e \<Rightarrow> Inl e
      | Inr p \<Rightarrow> (case coerce prs of Inl e \<Rightarrow> Inl e | Inr ps \<Rightarrow> Inr (p # ps)))"

definition shouldRunOn :: "(int \<Rightarrow> bool) list \<Rightarrow> int \<Rightarrow> bool" where
  "shouldRunOn ps n = (if length ps = 0 then True else list_ex (\<lambda>p. p n) ps)"

section \<open>Data fetched from the collaborators\<close>

text \<open>
  Values that \<^verbatim>\<open>run.ts\<close> only passes on or displays (the raw query result, the PR object,
  actions, mutations, the planner's extended information) are opaque: type \<open>'v\<close>.
\<close>

record 'v info =
  raw :: 'v
  pullRequest :: "'v option"

text \<open>
  Modelled from the spec: the type \<^verbatim>\<open>BotResult\<close> of \<^verbatim>\<open>./pr-info\<close> is not in view.  It is
  a tagged union with an \<^verbatim>\<open>error\<close> variant that carries a message, and other variants
  (identified by their tag) that each optionally carry a message.
\<close>

datatype BotResult = BotError string | BotOther string "string option"

text \<open>\<^verbatim>\<open>"message" in state\<close> and \<^verbatim>\<open>state.message\<close>.\<close>

fun message :: "BotResult \<Rightarrow> string option" where
  "message (BotError m) = Some m"
| "message (BotOther k m) = m"

text \<open>
  The fields of a column and of a card that \<^verbatim>\<open>run.ts\<close> reads (lines 134-151); the field
  \<^verbatim>\<open>id\<close> of a card is \<open>cardId\<close> here.  \<^verbatim>\<open>totalCount\<close> is a number reported by the
  remote side, independent of the cards fetched.
\<close>

record 't card =
  cardId :: string
  updatedAt :: 't

record 't column =
  name :: string
  cards :: "'t card list"
  totalCount :: int

text \<open>
  Modelled from the spec: the result type of \<^verbatim>\<open>runQueryToGetPRForCardId\<close> is not in view.
  It is \<^verbatim>\<open>undefined\<close> or a PR number with a state among \<^verbatim>\<open>OPEN\<close>, \<^verbatim>\<open>CLOSED\<close> and
  \<^verbatim>\<open>MERGED\<close>; \<^verbatim>\<open>run.ts\<close> reads \<^verbatim>\<open>info.state\<close> and \<^verbatim>\<open>info.number\<close> (lines 157-159).
\<close>

datatype PullRequestState = OPEN | CLOSED | MERGED

record pr_for_card =
  number :: int
  state :: PullRequestState

section \<open>Observable events\<close>

text \<open>
  One constructor per call of \<^verbatim>\<open>console.log\<close>, \<^verbatim>\<open>console.error\<close>,
  \<^verbatim>\<open>console.warn\<close> or \<^verbatim>\<open>show\<close> (carrying the interpolated values rather than the
  rendered text: \<^verbatim>\<open>xform\<close> and the output formats are not modelled), and one per
  awaited call to a collaborator that reads from or writes to the remote side.
  \<open>Mutate_deleteProjectCard id\<close> is
  \<^verbatim>\<open>client.mutate(createMutation("deleteProjectCard", { cardId: id }))\<close>.
\<close>

datatype 'v event =
    Log_GettingOpenPRs
  | Call_getAllOpenPRsAndCardIDs
  | Log_Processing int int nat
  | Call_getPRInfo int
  | Show_Raw 'v
  | Err_NoPR int 'v
  | Err_Error err
  | Show_Basic BotResult
  | Err_StateError string
  | Log_Message string
  | Show_Extended 'v
  | Show_Actions "'v list"
  | Call_executePrActions "'v list" 'v bool
  | Show_Mutations "'v list"
  | Log_CleaningUpCards
  | Call_getProjectBoardCards
  | Log_ShouldDelete string string
  | Mutate_deleteProjectCard string
  | Log_Cutting
  | Warn_NotSeen int
  | Log_CleaningUpColumn string
  | Call_runQueryToGetPRForCardId string
  | Err_FailedHeader
  | Err_Failed int err
  | Log_Done
  | Err_Top err
  | Err_Usage err

section \<open>The collaborators and the parsed arguments\<close>

text \<open>
  The imported functions, each returning \<open>Inl e\<close> where the call throws (or its promise
  rejects with) \<open>e\<close>.  The planner is given whether the diagnostic callback is present
  and returns the values it passes to the callback together with its result.
  \<open>mutate id\<close> is the outcome of submitting the card deletion for \<open>id\<close>.
\<close>

record ('v, 't) env =
  getAllOpenPRsAndCardIDs :: "err + (int list \<times> string list)"
  getPRInfo :: "int \<Rightarrow> err + 'v info"
  deriveStateForPR :: "'v \<Rightarrow> err + BotResult"
  computeActions :: "BotResult \<Rightarrow> bool \<Rightarrow> 'v list \<times> (err + 'v list)"
  executePrActions :: "'v list \<Rightarrow> 'v \<Rightarrow> bool \<Rightarrow> err + 'v list"
  getProjectBoardCards :: "err + 't column list"
  runQueryToGetPRForCardId :: "string \<Rightarrow> err + pr_for_card option"
  mutate :: "string \<Rightarrow> err option"

text \<open>
  The fields of \<^verbatim>\<open>args\<close> that \<^verbatim>\<open>start\<close> reads; \<open>positional\<close> is \<^verbatim>\<open>args._\<close> after
  coercion.  Only \<^verbatim>\<open>show-mutations\<close> is read in a way that tells \<^verbatim>\<open>undefined\<close> from
  \<^verbatim>\<open>false\<close> (line 117).  The \<^verbatim>\<open>format\<close> option only changes how \<^verbatim>\<open>show\<close> renders a
  value and is left out.
\<close>

record args =
  dry :: bool
  cleanup :: bool
  show_raw :: bool
  show_basic :: bool
  show_extended :: bool
  show_actions :: bool
  show_mutations :: "bool option"
  positional :: "(int \<Rightarrow> bool) list"

section \<open>Sequencing of effects\<close>

text \<open>
  A computation is its outcome (\<open>Inl\<close> a thrown value, \<open>Inr\<close> a result) and the events
  it emitted.  \<open>then_do\<close> runs the continuation only after a normal outcome.
\<close>

type_synonym ('v, 'a) comp = "(err + 'a) \<times> 'v event list"

definition then_do :: "('v, 'a) comp \<Rightarrow> ('a \<Rightarrow> ('v, 'b) comp) \<Rightarrow> ('v, 'b) comp" where
  "then_do m f =
     (case m of
        (Inl e, tr) \<Rightarrow> (Inl e, tr)
      | (Inr x, tr) \<Rightarrow> (case f x of (r, tr') \<Rightarrow> (r, tr @ tr')))"

definition emit :: "'v event list \<Rightarrow> ('v, unit) comp" where
  "emit evs = (Inr (), evs)"

definition call :: "'v event \<Rightarrow> err + 'a \<Rightarrow> ('v, 'a) comp" where
  "call ev r = (r, [ev])"

section \<open>Rendering of numbers\<close>

fun show_nat :: "nat \<Rightarrow> string" where
  "show_nat n =
     (if n < 10 then [char_of (48 + n)]
      else show_nat (n div 10) @ [char_of (48 + n mod 10)])"

declare show_nat.simps [simp del]

definition show_int :: "int \<Rightarrow> string" where
  "show_int i = (if i < 0 then CHR ''-'' # show_nat (nat (- i)) else show_nat (nat i))"

section \<open>The per-PR loop (lines 84-118)\<close>

text \<open>\<^verbatim>\<open>prs.indexOf(pr)\<close>: the first index of \<open>pr\<close>, or \<open>-1\<close>.\<close>

fun indexOf :: "int list \<Rightarrow> int \<Rightarrow> int" where
  "indexOf [] x = -1"
| "indexOf (y # ys) x =
     (if y = x then 0 else (let i = indexOf ys x in if i < 0 then -1 else i + 1))"

text \<open>
  Lines 106-110: what is written out about a derived state before it is planned.  The
  error variant is written to the error output and, as every state with a message, to the
  log.
\<close>

definition state_events :: "args \<Rightarrow> BotResult \<Rightarrow> 'v event list" where
  "state_events a st =
     (if show_basic a then [Show_Basic st] else [])
     @ (case st of BotError m \<Rightarrow> [Err_StateError m] | BotOther k m \<Rightarrow> [])
     @ (case message st of Some m \<Rightarrow> [Log_Message m] | None \<Rightarrow> [])"

text \<open>
  The body of the loop for a PR that passed \<^verbatim>\<open>shouldRunOn\<close>.  Its result is the entry
  pushed onto \<^verbatim>\<open>failures\<close>, if any; an \<open>Inl\<close> outcome is an exception that leaves the
  loop.  Only \<^verbatim>\<open>deriveStateForPR\<close> is inside the \<^verbatim>\<open>try\<close> block (lines 98-105).
\<close>

definition processPR ::
  "('v, 't) env \<Rightarrow> args \<Rightarrow> int list \<Rightarrow> int \<Rightarrow> ('v, (err \<times> int) option) comp" where
  "processPR env a prs pr =
     then_do (emit [Log_Processing pr (indexOf prs pr + 1) (length prs)]) (\<lambda>_.
     then_do (call (Call_getPRInfo pr) (getPRInfo env pr)) (\<lambda>info.
     then_do (emit (if show_raw a then [Show_Raw (raw info)] else [])) (\<lambda>_.
     case pullRequest info of
       None \<Rightarrow> (Inr None, [Err_NoPR pr (raw info)])
     | Some prInfo \<Rightarrow>
         (case deriveStateForPR env prInfo of
            Inl e \<Rightarrow> (Inr (Some (e, pr)), [Err_Error e])
          | Inr st \<Rightarrow>
              then_do (emit (state_events a st)) (\<lambda>_.
              then_do (case computeActions env st (show_extended a) of
                         (xs, r) \<Rightarrow> (r, if show_extended a then map Show_Extended xs else [])) (\<lambda>actions.
              then_do (emit (if show_actions a then [Show_Actions actions] else [])) (\<lambda>_.
              then_do (call (Call_executePrActions actions prInfo (dry a))
                            (executePrActions env actions prInfo (dry a))) (\<lambda>mutations.
              (Inr None,
               if (case show_mutations a of Some b \<Rightarrow> b | None \<Rightarrow> dry a)
               then [Show_Mutations mutations] else [])))))))))"

fun processPRs ::
  "('v, 't) env \<Rightarrow> args \<Rightarrow> int list \<Rightarrow> int list \<Rightarrow> (err \<times> int) list
     \<Rightarrow> ('v, (err \<times> int) list) comp" where
  "processPRs env a prs [] failures = (Inr failures, [])"
| "processPRs env a prs (pr # rest) failures =
     (if \<not> shouldRunOn (positional a) pr then processPRs env a prs rest failures
      else then_do (processPR env a prs pr) (\<lambda>f.
             processPRs env a prs rest
               (case f of None \<Rightarrow> failures | Some x \<Rightarrow> failures @ [x])))"

section \<open>Cleanup of the board (lines 121-161)\<close>

text \<open>
  \<^verbatim>\<open>if (shoulda)\<close> is a truthiness test: \<^verbatim>\<open>undefined\<close> and the empty string both lead
  to the deletion.
\<close>

definition deleteObject :: "('v, 't) env \<Rightarrow> string \<Rightarrow> string option \<Rightarrow> ('v, unit) comp" where
  "deleteObject env i shoulda =
     (case shoulda of
        Some (c # s) \<Rightarrow> (Inr (), [Log_ShouldDelete i (c # s)])
      | _ \<Rightarrow> call (Mutate_deleteProjectCard i)
                 (case mutate env i of None \<Rightarrow> Inr () | Some e \<Rightarrow> Inl e))"

text \<open>
  Line 139.  \<^verbatim>\<open>updatedAt\<close> is an ISO-8601 time stamp, on which \<^verbatim>\<open>localeCompare\<close> is the
  chronological order; the model keeps the type of time stamps abstract, as a linear
  order.  \<^verbatim>\<open>Array.prototype.sort\<close> is stable, as \<open>sort_key\<close> is.  The sort is in place,
  but the sorted column is never read again (line 150 skips it).
\<close>

definition afterFirst50 :: "('t::linorder) card list \<Rightarrow> 't card list" where
  "afterFirst50 cs = drop 50 (sort_key updatedAt cs)"

text \<open>\<^verbatim>\<open>for (const card of afterFirst50) await deleteObject(card.id)\<close>\<close>

fun deleteAll :: "('v, 't) env \<Rightarrow> string list \<Rightarrow> ('v, unit) comp" where
  "deleteAll env [] = (Inr (), [])"
| "deleteAll env (i # is) = then_do (deleteObject env i None) (\<lambda>_. deleteAll env is)"

definition reduceRecentlyMerged ::
  "('v, 't::linorder) env \<Rightarrow> 't column list \<Rightarrow> ('v, unit) comp" where
  "reduceRecentlyMerged env columns =
     (case find (\<lambda>c. name c = ''Recently Merged'') columns of
        None \<Rightarrow> (Inl (NoRecentlyMerged (map name columns)), [])
      | Some recentlyMerged \<Rightarrow>
          (let cs = cards recentlyMerged;
               reported = totalCount recentlyMerged;
               after = afterFirst50 cs
           in if length after > 0
              then then_do (emit (Log_Cutting #
                                  (if int (length cs) < reported
                                   then [Warn_NotSeen (reported - int (length cs))] else []))) (\<lambda>_.
                   deleteAll env (map cardId after))
              else (Inr (), [])))"

text \<open>Lines 157-159: the second argument of \<^verbatim>\<open>deleteObject\<close>.\<close>

definition shoulda_of :: "pr_for_card option \<Rightarrow> string option" where
  "shoulda_of info =
     (case info of
        None \<Rightarrow> Some ''???''
      | Some i \<Rightarrow> if state i = CLOSED then None else Some (CHR ''#'' # show_int (number i)))"

fun handleIds :: "('v, 't) env \<Rightarrow> string list \<Rightarrow> ('v, unit) comp" where
  "handleIds env [] = (Inr (), [])"
| "handleIds env (i # is) =
     then_do (call (Call_runQueryToGetPRForCardId i) (runQueryToGetPRForCardId env i)) (\<lambda>info.
     then_do (deleteObject env i (shoulda_of info)) (\<lambda>_.
     handleIds env is))"

definition staleIds :: "string list \<Rightarrow> 't column \<Rightarrow> string list" where
  "staleIds cardIDs col = filter (\<lambda>c. c \<notin> set cardIDs) (map cardId (cards col))"

fun handleColumns :: "('v, 't) env \<Rightarrow> string list \<Rightarrow> 't column list \<Rightarrow> ('v, unit) comp" where
  "handleColumns env cardIDs [] = (Inr (), [])"
| "handleColumns env cardIDs (col # rest) =
     (if name col = ''Recently Merged'' then handleColumns env cardIDs rest
      else if length (staleIds cardIDs col) = 0 then handleColumns env cardIDs rest
      else then_do (emit [Log_CleaningUpColumn (name col)]) (\<lambda>_.
           then_do (handleIds env (staleIds cardIDs col)) (\<lambda>_.
           handleColumns env cardIDs rest)))"

section \<open>The run (lines 80-177)\<close>

text \<open>
  Lines 119-171, the part of \<^verbatim>\<open>start\<close> after the loop: the early return, the cleanup
  and the report of the recorded failures.
\<close>

definition cleanupAndReport ::
  "('v, 't::linorder) env \<Rightarrow> args \<Rightarrow> string list \<Rightarrow> (err \<times> int) list \<Rightarrow> ('v, unit) comp" where
  "cleanupAndReport env a cardIDs failures =
     (if dry a \<or> \<not> cleanup a then (Inr (), [])
      else
        then_do (emit [Log_CleaningUpCards]) (\<lambda>_.
        then_do (call Call_getProjectBoardCards (getProjectBoardCards env)) (\<lambda>columns.
        then_do (reduceRecentlyMerged env columns) (\<lambda>_.
        then_do (handleColumns env cardIDs columns) (\<lambda>_.
        case failures of
          [] \<Rightarrow> (Inr (), [Log_Done])
        | f # fs \<Rightarrow>
            (Inl (fst f),
             Err_FailedHeader # map (\<lambda>(e, pr). Err_Failed pr e) failures))))))"

definition start :: "('v, 't::linorder) env \<Rightarrow> args \<Rightarrow> ('v, unit) comp" where
  "start env a =
     then_do (emit [Log_GettingOpenPRs]) (\<lambda>_.
     then_do (call Call_getAllOpenPRsAndCardIDs (getAllOpenPRsAndCardIDs env)) (\<lambda>(prs, cardIDs).
     then_do (processPRs env a prs prs []) (\<lambda>failures.
     cleanupAndReport env a cardIDs failures)))"

text \<open>
  The module as a whole: the arguments are coerced when the module is loaded (line 16),
  before \<^verbatim>\<open>start()\<close> is called on line 174.  An error thrown by the coercion ends the
  process with exit code 1 without reaching line 174 (the option parser reports it as a
  usage error; uncaught, it would end the process with the same code).  Otherwise the
  exit code is 1 exactly when the promise of \<^verbatim>\<open>start()\<close> rejects (lines 174-177).
  \<open>flags\<close> holds the parsed options; its \<open>positional\<close> field is replaced by the
  coerced tokens.
\<close>

definition main :: "('v, 't::linorder) env \<Rightarrow> args \<Rightarrow> token list \<Rightarrow> nat \<times> 'v event list" where
  "main env flags tokens =
     (case coerce tokens of
        Inl e \<Rightarrow> (1, [Err_Usage e])
      | Inr ps \<Rightarrow>
          (case start env (flags\<lparr>positional := ps\<rparr>) of
             (Inl e, tr) \<Rightarrow> (1, tr @ [Err_Top e])
           | (Inr u, tr) \<Rightarrow> (0, tr)))"

section \<open>Example runs\<close>

text \<open>
  A quiet set of collaborators, used to evaluate the run on concrete inputs: no open PRs,
  every PR exists (its object is identified with its number), derivation yields an
  informational result without message, the planner plans nothing, the executor returns
  the actions it was given, the board has an empty archive column, no card resolves to a
  PR and every deletion succeeds.
\<close>

definition env0 :: "(int, nat) env" where
  "env0 =
     \<lparr> getAllOpenPRsAndCardIDs = Inr ([], []),
       getPRInfo = (\<lambda>pr. Inr \<lparr> raw = pr, pullRequest = Some pr \<rparr>),
       deriveStateForPR = (\<lambda>p. Inr (BotOther ''info'' None)),
       computeActions = (\<lambda>st cb. ([], Inr [])),
       executePrActions = (\<lambda>actions p d. Inr actions),
       getProjectBoardCards = Inr [\<lparr> name = ''Recently Merged'', cards = [], totalCount = 0 \<rparr>],
       runQueryToGetPRForCardId = (\<lambda>i. Inr None),
       mutate = (\<lambda>i. None) \<rparr>"

text \<open>The default options: \<^verbatim>\<open>dry\<close> false, \<^verbatim>\<open>cleanup\<close> true, nothing displayed.\<close>

definition flags0 :: args where
  "flags0 =
     \<lparr> dry = False, cleanup = True, show_raw = False, show_basic = False,
       show_extended = False, show_actions = False, show_mutations = None,
       positional = [] \<rparr>"

text \<open>PRs 1 and 2 are open; the executor fails on PR 1.\<close>

definition env_exec_fails :: "(int, nat) env" where
  "env_exec_fails =
     env0 \<lparr> getAllOpenPRsAndCardIDs := Inr ([1, 2], []),
            executePrActions :=
              (\<lambda>actions p d. if p = 1 then Inl (Thrown ''submit failed'') else Inr actions) \<rparr>"

text \<open>PRs 1 and 2 are open; the derivation throws on PR 1.\<close>

definition env_derive_fails :: "(int, nat) env" where
  "env_derive_fails =
     env0 \<lparr> getAllOpenPRsAndCardIDs := Inr ([1, 2], []),
            deriveStateForPR :=
              (\<lambda>p. if p = 1 then Inl (Thrown ''bad metadata'') else Inr (BotOther ''info'' None)) \<rparr>"

text \<open>
  PRs 101 and 102 are open; PR 101 derives to the error variant with message
  \<^verbatim>\<open>CI failed\<close>, PR 102 to an informational state.  The planner plans nothing for the
  error variant and one action (7) otherwise.
\<close>

definition env_ci_failed :: "(int, nat) env" where
  "env_ci_failed =
     env0 \<lparr> getAllOpenPRsAndCardIDs := Inr ([101, 102], []),
            deriveStateForPR :=
              (\<lambda>p. if p = 101 then Inr (BotError ''CI failed'')
                    else Inr (BotOther ''info'' (Some ''ok''))),
            computeActions :=
              (\<lambda>st cb. case st of BotError m \<Rightarrow> ([], Inr []) | BotOther k m \<Rightarrow> ([], Inr [7])) \<rparr>"

text \<open>The board has no column named \<^verbatim>\<open>Recently Merged\<close>.\<close>

definition env_no_archive :: "(int, nat) env" where
  "env_no_archive =
     env0 \<lparr> getProjectBoardCards :=
              Inr [\<lparr> name = ''Needs Maintainer Review'', cards = [], totalCount = 0 \<rparr>] \<rparr>"

text \<open>PRs 7 and 8 are listed as open, but the query for PR 7 finds no pull request.\<close>

definition env_missing_pr :: "(int, nat) env" where
  "env_missing_pr =
     env0 \<lparr> getAllOpenPRsAndCardIDs := Inr ([7, 8], []),
            getPRInfo := (\<lambda>pr. Inr \<lparr> raw = pr, pullRequest = (if pr = 7 then None else Some pr) \<rparr>) \<rparr>"

text \<open>
  An archive column whose cards carry the given time stamps, in the given order; a card's
  id is its time stamp in decimal.
\<close>

definition archive_column :: "nat list \<Rightarrow> int \<Rightarrow> nat column" where
  "archive_column stamps reported =
     \<lparr> name = ''Recently Merged'',
       cards = map (\<lambda>t. \<lparr> cardId = show_nat t, updatedAt = t \<rparr>) stamps,
       totalCount = reported \<rparr>"

text \<open>
  A board with an empty archive column and a column with four cards: \<^verbatim>\<open>a\<close> resolves
  to no PR, \<^verbatim>\<open>b\<close> to the open PR 7, \<^verbatim>\<open>c\<close> to the closed PR 9, and \<^verbatim>\<open>d\<close> belongs to
  an open PR.
\<close>

definition needs_author_action :: "nat column" where
  "needs_author_action =
     \<lparr> name = ''Needs Author Action'',
       cards = [\<lparr> cardId = ''a'', updatedAt = 1 \<rparr>,
                \<lparr> cardId = ''b'', updatedAt = 2 \<rparr>,
                \<lparr> cardId = ''c'', updatedAt = 3 \<rparr>,
                \<lparr> cardId = ''d'', updatedAt = 4 \<rparr>],
       totalCount = 4 \<rparr>"

definition board_with_stale_cards :: "nat column list" where
  "board_with_stale_cards =
     [\<lparr> name = ''Recently Merged'', cards = [], totalCount = 0 \<rparr>, needs_author_action]"

definition env_stale_cards :: "(int, nat) env" where
  "env_stale_cards =
     env0 \<lparr> getAllOpenPRsAndCardIDs := Inr ([], [''d'']),
            getProjectBoardCards := Inr board_with_stale_cards,
            runQueryToGetPRForCardId :=
              (\<lambda>i. if i = ''a'' then Inr None
                    else if i = ''b'' then Inr (Some \<lparr> number = 7, state = OPEN \<rparr>)
                    else Inr (Some \<lparr> number = 9, state = CLOSED \<rparr>)) \<rparr>"

section \<open>Facts about sequencing\<close>

lemma then_do_Inl [simp]: "then_do (Inl e, tr) f = (Inl e, tr)"
  by (simp add: then_do_def)

lemma then_do_Inr [simp]: "then_do (Inr x, tr) f = (fst (f x), tr @ snd (f x))"
  by (simp add: then_do_def split: prod.splits)

lemma then_do_emit [simp]: "then_do (emit evs) f = (fst (f ()), evs @ snd (f ()))"
  by (simp add: emit_def)

lemma then_do_call_Inr [simp]: "then_do (call ev (Inr x)) f = (fst (f x), ev # snd (f x))"
  by (simp add: call_def)

lemma then_do_call_Inl [simp]: "then_do (call ev (Inl e)) f = (Inl e, [ev])"
  by (simp add: call_def)

lemma fst_then_do:
  "fst (then_do m f) = (case fst m of Inl e \<Rightarrow> Inl e | Inr x \<Rightarrow> fst (f x))"
  by (cases m; cases "fst m") auto

lemma snd_then_do:
  "snd (then_do m f) = (case fst m of Inl e \<Rightarrow> snd m | Inr x \<Rightarrow> snd m @ snd (f x))"
  by (cases m; cases "fst m") auto

lemma then_do_eq:
  "fst m = Inr x \<Longrightarrow> then_do m f = (fst (f x), snd m @ snd (f x))"
  by (cases m) auto

lemma then_do_throw:
  "fst m = Inl e \<Longrightarrow> then_do m f = (Inl e, snd m)"
  by (cases m) auto

section \<open>Facts about the per-PR loop\<close>

lemma processPR_fetch_throws:
  "getPRInfo env pr = Inl e \<Longrightarrow>
   processPR env a prs pr =
     (Inl e, [Log_Processing pr (indexOf prs pr + 1) (length prs), Call_getPRInfo pr])"
  by (simp add: processPR_def)

lemma processPR_no_pullRequest:
  "getPRInfo env pr = Inr info \<Longrightarrow> pullRequest info = None \<Longrightarrow>
   processPR env a prs pr =
     (Inr None,
      [Log_Processing pr (indexOf prs pr + 1) (length prs), Call_getPRInfo pr]
      @ (if show_raw a then [Show_Raw (raw info)] else [])
      @ [Err_NoPR pr (raw info)])"
  by (simp add: processPR_def)

lemma processPR_derive_throws:
  "getPRInfo env pr = Inr info \<Longrightarrow> pullRequest info = Some p \<Longrightarrow>
   deriveStateForPR env p = Inl e \<Longrightarrow>
   processPR env a prs pr =
     (Inr (Some (e, pr)),
      [Log_Processing pr (indexOf prs pr + 1) (length prs), Call_getPRInfo pr]
      @ (if show_raw a then [Show_Raw (raw info)] else [])
      @ [Err_Error e])"
  by (simp add: processPR_def)

lemma processPR_plan_throws:
  "getPRInfo env pr = Inr info \<Longrightarrow> pullRequest info = Some p \<Longrightarrow>
   deriveStateForPR env p = Inr st \<Longrightarrow>
   computeActions env st (show_extended a) = (xs, Inl e) \<Longrightarrow>
   processPR env a prs pr =
     (Inl e,
      [Log_Processing pr (indexOf prs pr + 1) (length prs), Call_getPRInfo pr]
      @ (if show_raw a then [Show_Raw (raw info)] else [])
      @ state_events a st
      @ (if show_extended a then map Show_Extended xs else []))"
  by (simp add: processPR_def state_events_def)

lemma processPR_execute_throws:
  "getPRInfo env pr = Inr info \<Longrightarrow> pullRequest info = Some p \<Longrightarrow>
   deriveStateForPR env p = Inr st \<Longrightarrow>
   computeActions env st (show_extended a) = (xs, Inr actions) \<Longrightarrow>
   executePrActions env actions p (dry a) = Inl e \<Longrightarrow>
   processPR env a prs pr =
     (Inl e,
      [Log_Processing pr (indexOf prs pr + 1) (length prs), Call_getPRInfo pr]
      @ (if show_raw a then [Show_Raw (raw info)] else [])
      @ state_events a st
      @ (if show_extended a then map Show_Extended xs else [])
      @ (if show_actions a then [Show_Actions actions] else [])
      @ [Call_executePrActions actions p (dry a)])"
  by (simp add: processPR_def state_events_def)

lemma processPR_executed:
  "getPRInfo env pr = Inr info \<Longrightarrow> pullRequest info = Some p \<Longrightarrow>
   deriveStateForPR env p = Inr st \<Longrightarrow>
   computeActions env st (show_extended a) = (xs, Inr actions) \<Longrightarrow>
   executePrActions env actions p (dry a) = Inr mutations \<Longrightarrow>
   processPR env a prs pr =
     (Inr None,
      [Log_Processing pr (indexOf prs pr + 1) (length prs), Call_getPRInfo pr]
      @ (if show_raw a then [Show_Raw (raw info)] else [])
      @ state_events a st
      @ (if show_extended a then map Show_Extended xs else [])
      @ (if show_actions a then [Show_Actions actions] else [])
      @ [Call_executePrActions actions p (dry a)]
      @ (if (case show_mutations a of Some b \<Rightarrow> b | None \<Rightarrow> dry a)
         then [Show_Mutations mutations] else []))"
  by (simp add: processPR_def state_events_def)

lemma fst_processPR_prs: "fst (processPR env a prs pr) = fst (processPR env a prs' pr)"
  by (simp add: processPR_def fst_then_do split: sum.splits option.splits prod.splits)

lemma fst_processPRs_prs:
  "fst (processPRs env a prs l fs) = fst (processPRs env a prs' l fs)"
proof (induction l arbitrary: fs)
  case Nil
  show ?case by simp
next
  case (Cons pr l)
  show ?case
    using Cons.IH fst_processPR_prs [of env a prs pr prs']
    by (simp add: fst_then_do split: sum.splits)
qed

lemma fst_processPRs_skip:
  assumes "fst (processPR env a prs pr) = Inr None"
  shows "fst (processPRs env a prs (xs @ pr # ys) fs) = fst (processPRs env a prs (xs @ ys) fs)"
proof (induction xs arbitrary: fs)
  case Nil
  show ?case using assms by (simp add: fst_then_do)
next
  case (Cons x xs)
  show ?case using Cons.IH by (simp add: fst_then_do split: sum.splits)
qed

lemma processPRs_selected:
  "shouldRunOn (positional a) pr \<Longrightarrow>
   processPRs env a prs (pr # rest) fs =
     then_do (processPR env a prs pr) (\<lambda>f.
       processPRs env a prs rest (case f of None \<Rightarrow> fs | Some x \<Rightarrow> fs @ [x]))"
  by simp

lemma start_after_fetch:
  "getAllOpenPRsAndCardIDs env = Inr (prs, ids) \<Longrightarrow>
   start env a =
     (fst (then_do (processPRs env a prs prs []) (cleanupAndReport env a ids)),
      [Log_GettingOpenPRs, Call_getAllOpenPRsAndCardIDs]
      @ snd (then_do (processPRs env a prs prs []) (cleanupAndReport env a ids)))"
  by (simp add: start_def)

lemma start_loop_throws:
  "getAllOpenPRsAndCardIDs env = Inr (prs, ids) \<Longrightarrow>
   fst (processPRs env a prs prs []) = Inl e \<Longrightarrow>
   start env a =
     (Inl e, [Log_GettingOpenPRs, Call_getAllOpenPRsAndCardIDs] @ snd (processPRs env a prs prs []))"
  by (simp add: start_after_fetch then_do_throw)

lemma start_loop_done:
  "getAllOpenPRsAndCardIDs env = Inr (prs, ids) \<Longrightarrow>
   processPRs env a prs prs [] = (Inr fs, tr) \<Longrightarrow>
   start env a =
     (fst (cleanupAndReport env a ids fs),
      [Log_GettingOpenPRs, Call_getAllOpenPRsAndCardIDs] @ tr @ snd (cleanupAndReport env a ids fs))"
  by (simp add: start_after_fetch)

lemma main_start:
  "coerce tokens = Inr ps \<Longrightarrow>
   main env flags tokens =
     (case start env (flags\<lparr>positional := ps\<rparr>) of
        (Inl e, tr) \<Rightarrow> (1, tr @ [Err_Top e])
      | (Inr u, tr) \<Rightarrow> (0, tr))"
  by (simp add: main_def)

lemma fst_main:
  "coerce tokens = Inr ps \<Longrightarrow>
   fst (main env flags tokens) =
     (case fst (start env (flags\<lparr>positional := ps\<rparr>)) of Inl e \<Rightarrow> 1 | Inr u \<Rightarrow> 0)"
  by (simp add: main_start split: prod.splits sum.splits)

lemma cleanupAndReport_skipped:
  "dry a \<or> \<not> cleanup a \<Longrightarrow> cleanupAndReport env a ids fs = (Inr (), [])"
  by (simp add: cleanupAndReport_def)

lemma cleanupAndReport_done:
  "\<not> dry a \<Longrightarrow> cleanup a \<Longrightarrow> getProjectBoardCards env = Inr columns \<Longrightarrow>
   reduceRecentlyMerged env columns = (Inr (), tr2) \<Longrightarrow>
   handleColumns env ids columns = (Inr (), tr3) \<Longrightarrow>
   cleanupAndReport env a ids fs =
     (case fs of
        [] \<Rightarrow> (Inr (), [Log_CleaningUpCards, Call_getProjectBoardCards] @ tr2 @ tr3 @ [Log_Done])
      | f # fs' \<Rightarrow>
          (Inl (fst f),
           [Log_CleaningUpCards, Call_getProjectBoardCards] @ tr2 @ tr3
           @ Err_FailedHeader # map (\<lambda>(e, pr). Err_Failed pr e) fs))"
  by (simp add: cleanupAndReport_def split: list.splits)

lemma reduceRecentlyMerged_missing:
  "find (\<lambda>c. name c = ''Recently Merged'') columns = None \<Longrightarrow>
   reduceRecentlyMerged env columns = (Inl (NoRecentlyMerged (map name columns)), [])"
  by (simp add: reduceRecentlyMerged_def)

lemma cleanupAndReport_missing:
  "\<not> dry a \<Longrightarrow> cleanup a \<Longrightarrow> getProjectBoardCards env = Inr columns \<Longrightarrow>
   find (\<lambda>c. name c = ''Recently Merged'') columns = None \<Longrightarrow>
   cleanupAndReport env a ids fs =
     (Inl (NoRecentlyMerged (map name columns)), [Log_CleaningUpCards, Call_getProjectBoardCards])"
  by (simp add: cleanupAndReport_def reduceRecentlyMerged_missing)

text \<open>None of the functions reads the list of open PRs from the collaborators.\<close>

lemma processPR_env_prs [simp]:
  "processPR (env\<lparr>getAllOpenPRsAndCardIDs := x\<rparr>) a prs pr = processPR env a prs pr"
  by (simp add: processPR_def cong: option.case_cong sum.case_cong prod.case_cong)

lemma processPRs_env_prs [simp]:
  "processPRs (env\<lparr>getAllOpenPRsAndCardIDs := x\<rparr>) a prs l fs = processPRs env a prs l fs"
  by (induction l arbitrary: fs) simp_all

lemma deleteObject_env_prs [simp]:
  "deleteObject (env\<lparr>getAllOpenPRsAndCardIDs := x\<rparr>) i sh = deleteObject env i sh"
  by (simp add: deleteObject_def cong: option.case_cong list.case_cong)

lemma deleteAll_env_prs [simp]:
  "deleteAll (env\<lparr>getAllOpenPRsAndCardIDs := x\<rparr>) is = deleteAll env is"
  by (induction "is") simp_all

lemma reduceRecentlyMerged_env_prs [simp]:
  "reduceRecentlyMerged (env\<lparr>getAllOpenPRsAndCardIDs := x\<rparr>) cols = reduceRecentlyMerged env cols"
  by (simp add: reduceRecentlyMerged_def Let_def cong: option.case_cong if_cong)

lemma handleIds_env_prs [simp]:
  "handleIds (env\<lparr>getAllOpenPRsAndCardIDs := x\<rparr>) is = handleIds env is"
  by (induction "is") simp_all

lemma handleColumns_env_prs [simp]:
  "handleColumns (env\<lparr>getAllOpenPRsAndCardIDs := x\<rparr>) ids cols = handleColumns env ids cols"
  by (induction cols) simp_all

lemma cleanupAndReport_env_prs [simp]:
  "cleanupAndReport (env\<lparr>getAllOpenPRsAndCardIDs := x\<rparr>) a ids = cleanupAndReport env a ids"
  by (rule ext) (simp add: cleanupAndReport_def)

lemma fst_start_skip:
  assumes "getAllOpenPRsAndCardIDs env = Inr (xs @ pr # ys, ids)"
    and "fst (processPR env a (xs @ pr # ys) pr) = Inr None"
  shows "fst (start env a) = fst (start (env\<lparr>getAllOpenPRsAndCardIDs := Inr (xs @ ys, ids)\<rparr>) a)"
proof -
  have "fst (processPRs env a (xs @ pr # ys) (xs @ pr # ys) [])
        = fst (processPRs env a (xs @ pr # ys) (xs @ ys) [])"
    using assms(2) by (rule fst_processPRs_skip)
  also have "\<dots> = fst (processPRs env a (xs @ ys) (xs @ ys) [])"
    by (rule fst_processPRs_prs)
  finally have eq: "fst (processPRs env a (xs @ pr # ys) (xs @ pr # ys) [])
        = fst (processPRs env a (xs @ ys) (xs @ ys) [])" .
  have "fst (start env a)
        = fst (then_do (processPRs env a (xs @ pr # ys) (xs @ pr # ys) []) (cleanupAndReport env a ids))"
    using assms(1) by (simp add: start_after_fetch)
  also have "\<dots> = fst (then_do (processPRs env a (xs @ ys) (xs @ ys) []) (cleanupAndReport env a ids))"
    by (simp add: fst_then_do eq)
  also have "\<dots> = fst (start (env\<lparr>getAllOpenPRsAndCardIDs := Inr (xs @ ys, ids)\<rparr>) a)"
    by (simp add: start_after_fetch [where prs = "xs @ ys" and ids = ids])
  finally show ?thesis .
qed

lemma main_self:
  "coerce tokens = Inr (positional a) \<Longrightarrow>
   main env a tokens =
     (case start env a of (Inl e, tr) \<Rightarrow> (1, tr @ [Err_Top e]) | (Inr u, tr) \<Rightarrow> (0, tr))"
  by (simp add: main_start)

text \<open>The definitions unfolded to evaluate a run on concrete collaborators.\<close>

lemmas run_simps = main_def start_def cleanupAndReport_def processPR_def state_events_def
  reduceRecentlyMerged_def afterFirst50_def deleteObject_def shoulda_of_def staleIds_def
  shouldRunOn_def flags0_def env0_def

section \<open>Facts about the cleanup\<close>

text \<open>
  What line 139 selects: all but the first 50 cards of the ascending order, each of them
  updated no earlier than any card that is kept.
\<close>

lemma afterFirst50_length: "length (afterFirst50 cs) = length cs - 50"
  by (simp add: afterFirst50_def)

lemma afterFirst50_newest:
  assumes "d \<in> set (afterFirst50 cs)" and "k \<in> set (take 50 (sort_key updatedAt cs))"
  shows "updatedAt k \<le> updatedAt d"
proof -
  have "sorted (map updatedAt (take 50 (sort_key updatedAt cs) @ drop 50 (sort_key updatedAt cs)))"
    by (simp add: sorted_sort_key)
  then show ?thesis
    using assms unfolding afterFirst50_def map_append sorted_append by auto
qed

lemma afterFirst50_set:
  "set (take 50 (sort_key updatedAt cs)) \<union> set (afterFirst50 cs) = set cs"
proof -
  have "set (take 50 (sort_key updatedAt cs) @ drop 50 (sort_key updatedAt cs)) = set cs"
    by (simp only: append_take_drop_id set_sort)
  then show ?thesis by (simp add: afterFirst50_def del: append_take_drop_id)
qed

lemma deleteObject_Mutate:
  "Mutate_deleteProjectCard i \<in> set (snd (deleteObject env j sh))
     \<longleftrightarrow> i = j \<and> (sh = None \<or> sh = Some [])"
  by (auto simp: deleteObject_def call_def split: option.splits list.splits)

lemma deleteObject_Log:
  "Log_ShouldDelete i s \<in> set (snd (deleteObject env j sh))
     \<longleftrightarrow> i = j \<and> s \<noteq> [] \<and> sh = Some s"
  by (auto simp: deleteObject_def call_def split: option.splits list.splits)

lemma deleteObject_logged:
  "deleteObject env j (Some (c # s)) = (Inr (), [Log_ShouldDelete j (c # s)])"
  by (simp add: deleteObject_def)

lemma shoulda_of_falsy:
  "(shoulda_of info = None \<or> shoulda_of info = Some [])
     \<longleftrightarrow> (\<exists>p. info = Some p \<and> state p = CLOSED)"
  by (auto simp: shoulda_of_def split: option.splits)

lemma handleIds_Cons_trace:
  "snd (handleIds env (j # js)) =
     (case runQueryToGetPRForCardId env j of
        Inl e \<Rightarrow> [Call_runQueryToGetPRForCardId j]
      | Inr info \<Rightarrow>
          Call_runQueryToGetPRForCardId j # snd (deleteObject env j (shoulda_of info))
          @ (case fst (deleteObject env j (shoulda_of info)) of
               Inl e \<Rightarrow> [] | Inr u \<Rightarrow> snd (handleIds env js)))"
  by (cases "runQueryToGetPRForCardId env j") (simp_all add: snd_then_do split: sum.splits)

lemma handleIds_Cons_outcome:
  "fst (handleIds env (j # js)) =
     (case runQueryToGetPRForCardId env j of
        Inl e \<Rightarrow> Inl e
      | Inr info \<Rightarrow>
          (case fst (deleteObject env j (shoulda_of info)) of
             Inl e \<Rightarrow> Inl e | Inr u \<Rightarrow> fst (handleIds env js)))"
  by (cases "runQueryToGetPRForCardId env j") (simp_all add: fst_then_do split: sum.splits)

lemma handleIds_Mutate:
  "Mutate_deleteProjectCard i \<in> set (snd (handleIds env js)) \<Longrightarrow>
   i \<in> set js \<and> (\<exists>p. runQueryToGetPRForCardId env i = Inr (Some p) \<and> state p = CLOSED)"
proof (induction js)
  case Nil
  then show ?case by simp
next
  case (Cons j js)
  show ?case
  proof (cases "runQueryToGetPRForCardId env j")
    case (Inl e)
    with Cons.prems show ?thesis by (simp add: handleIds_Cons_trace del: handleIds.simps)
  next
    case (Inr info)
    with Cons.prems consider
      (here) "Mutate_deleteProjectCard i \<in> set (snd (deleteObject env j (shoulda_of info)))"
      | (later) "Mutate_deleteProjectCard i \<in> set (snd (handleIds env js))"
      by (auto simp: handleIds_Cons_trace split: sum.splits simp del: handleIds.simps)
    then show ?thesis
    proof cases
      case here
      then have "i = j" and "shoulda_of info = None \<or> shoulda_of info = Some []"
        by (simp_all add: deleteObject_Mutate)
      with Inr show ?thesis by (auto simp: shoulda_of_falsy)
    next
      case later
      with Cons.IH show ?thesis by simp
    qed
  qed
qed

lemma handleIds_done:
  assumes "fst (handleIds env js) = Inr ()" and "i \<in> set js"
  shows "\<exists>info. runQueryToGetPRForCardId env i = Inr info
           \<and> set (snd (deleteObject env i (shoulda_of info))) \<subseteq> set (snd (handleIds env js))"
  using assms
proof (induction js)
  case Nil
  then show ?case by simp
next
  case (Cons j js)
  from Cons.prems(1) obtain info where info: "runQueryToGetPRForCardId env j = Inr info"
    and del: "fst (deleteObject env j (shoulda_of info)) = Inr ()"
    and rest: "fst (handleIds env js) = Inr ()"
    by (auto simp: handleIds_Cons_outcome split: sum.splits simp del: handleIds.simps)
  have tr: "snd (handleIds env (j # js)) =
      Call_runQueryToGetPRForCardId j # snd (deleteObject env j (shoulda_of info))
        @ snd (handleIds env js)"
    using info del by (simp add: handleIds_Cons_trace del: handleIds.simps)
  show ?case
  proof (cases "i = j")
    case True
    with info tr show ?thesis by auto
  next
    case False
    with Cons.prems(2) have "i \<in> set js" by simp
    from Cons.IH [OF rest this] tr show ?thesis by auto
  qed
qed

lemma handleColumns_Cons_trace:
  "snd (handleColumns env cardIDs (col # rest)) =
     (if name col = ''Recently Merged'' \<or> staleIds cardIDs col = []
      then snd (handleColumns env cardIDs rest)
      else Log_CleaningUpColumn (name col) # snd (handleIds env (staleIds cardIDs col))
           @ (case fst (handleIds env (staleIds cardIDs col)) of
                Inl e \<Rightarrow> [] | Inr u \<Rightarrow> snd (handleColumns env cardIDs rest)))"
  by (simp add: snd_then_do split: sum.splits)

lemma handleColumns_Cons_outcome:
  "fst (handleColumns env cardIDs (col # rest)) =
     (if name col = ''Recently Merged'' \<or> staleIds cardIDs col = []
      then fst (handleColumns env cardIDs rest)
      else (case fst (handleIds env (staleIds cardIDs col)) of
              Inl e \<Rightarrow> Inl e | Inr u \<Rightarrow> fst (handleColumns env cardIDs rest)))"
  by (simp add: fst_then_do split: sum.splits)

lemma handleColumns_Mutate:
  "Mutate_deleteProjectCard i \<in> set (snd (handleColumns env cardIDs columns)) \<Longrightarrow>
   (\<exists>p. runQueryToGetPRForCardId env i = Inr (Some p) \<and> state p = CLOSED)
   \<and> (\<exists>col\<in>set columns. name col \<noteq> ''Recently Merged'' \<and> i \<in> set (staleIds cardIDs col))"
proof (induction columns)
  case Nil
  then show ?case by simp
next
  case (Cons col rest)
  from Cons.prems consider
    (here) "name col \<noteq> ''Recently Merged''"
      "Mutate_deleteProjectCard i \<in> set (snd (handleIds env (staleIds cardIDs col)))"
    | (later) "Mutate_deleteProjectCard i \<in> set (snd (handleColumns env cardIDs rest))"
    by (auto simp: handleColumns_Cons_trace split: if_splits sum.splits simp del: handleColumns.simps)
  then show ?case
  proof cases
    case here
    from handleIds_Mutate [OF here(2)] here(1) show ?thesis by auto
  next
    case later
    from Cons.IH [OF later] show ?thesis by auto
  qed
qed

lemma handleColumns_done:
  assumes "fst (handleColumns env cardIDs columns) = Inr ()"
    and "col \<in> set columns" and "name col \<noteq> ''Recently Merged''"
    and "i \<in> set (staleIds cardIDs col)"
  shows "\<exists>info. runQueryToGetPRForCardId env i = Inr info
           \<and> set (snd (deleteObject env i (shoulda_of info)))
               \<subseteq> set (snd (handleColumns env cardIDs columns))"
  using assms(1,2)
proof (induction columns)
  case Nil
  then show ?case by simp
next
  case (Cons k rest)
  show ?case
  proof (cases "name k = ''Recently Merged'' \<or> staleIds cardIDs k = []")
    case True
    with Cons.prems assms(3,4) have "fst (handleColumns env cardIDs rest) = Inr ()" "col \<in> set rest"
      by (auto simp: handleColumns_Cons_outcome simp del: handleColumns.simps)
    from Cons.IH [OF this] True show ?thesis
      by (auto simp: handleColumns_Cons_trace simp del: handleColumns.simps)
  next
    case False
    with Cons.prems(1) have ids: "fst (handleIds env (staleIds cardIDs k)) = Inr ()"
      and rest: "fst (handleColumns env cardIDs rest) = Inr ()"
      by (auto simp: handleColumns_Cons_outcome split: sum.splits simp del: handleColumns.simps)
    have tr: "snd (handleColumns env cardIDs (k # rest)) =
        Log_CleaningUpColumn (name k) # snd (handleIds env (staleIds cardIDs k))
          @ snd (handleColumns env cardIDs rest)"
      using False ids by (simp add: handleColumns_Cons_trace del: handleColumns.simps)
    show ?thesis
    proof (cases "col = k")
      case True
      from handleIds_done [OF ids] assms(4) True tr show ?thesis by fastforce
    next
      case False
      with Cons.prems(2) have "col \<in> set rest" by simp
      from Cons.IH [OF rest this] tr show ?thesis by fastforce
    qed
  qed
qed

lemma staleIds_iff:
  "i \<in> set (staleIds cardIDs col) \<longleftrightarrow> i \<in> cardId ` set (cards col) \<and> i \<notin> set cardIDs"
  by (auto simp: staleIds_def)

lemma processPR_no_Mutate:
  "Mutate_deleteProjectCard i \<notin> set (snd (processPR env a prs pr))"
proof (cases "getPRInfo env pr")
  case (Inl e)
  then show ?thesis by (simp add: processPR_fetch_throws)
next
  case (Inr info)
  show ?thesis
  proof (cases "pullRequest info")
    case None
    with Inr show ?thesis by (simp add: processPR_no_pullRequest)
  next
    case (Some p)
    show ?thesis
    proof (cases "deriveStateForPR env p")
      case (Inl e)
      with Inr Some show ?thesis by (simp add: processPR_derive_throws)
    next
      case st: (Inr st)
      have ev: "Mutate_deleteProjectCard i \<notin> set (state_events a st)"
        by (auto simp: state_events_def split: BotResult.splits option.splits)
      obtain xs r where c: "computeActions env st (show_extended a) = (xs, r)"
        by (cases "computeActions env st (show_extended a)")
      show ?thesis
      proof (cases r)
        case (Inl e)
        with c have "computeActions env st (show_extended a) = (xs, Inl e)" by simp
        from processPR_plan_throws [OF Inr Some st this] ev show ?thesis by auto
      next
        case acts: (Inr actions)
        with c have c': "computeActions env st (show_extended a) = (xs, Inr actions)" by simp
        show ?thesis
        proof (cases "executePrActions env actions p (dry a)")
          case (Inl e)
          from processPR_execute_throws [OF Inr Some st c' this] ev show ?thesis by auto
        next
          case ms: (Inr mutations)
          from processPR_executed [OF Inr Some st c' this] ev show ?thesis by auto
        qed
      qed
    qed
  qed
qed

lemma processPRs_no_Mutate:
  "Mutate_deleteProjectCard i \<notin> set (snd (processPRs env a prs l fs))"
  by (induction l arbitrary: fs) (auto simp: snd_then_do processPR_no_Mutate split: sum.splits)

lemma deleteAll_Mutate:
  "Mutate_deleteProjectCard i \<in> set (snd (deleteAll env js)) \<Longrightarrow> i \<in> set js"
  by (induction js) (auto simp: snd_then_do deleteObject_Mutate split: sum.splits)

lemma reduceRecentlyMerged_Mutate:
  "Mutate_deleteProjectCard i \<in> set (snd (reduceRecentlyMerged env columns)) \<Longrightarrow>
   \<exists>arch. find (\<lambda>col. name col = ''Recently Merged'') columns = Some arch
          \<and> i \<in> cardId ` set (afterFirst50 (cards arch))"
  by (auto simp: reduceRecentlyMerged_def Let_def dest!: deleteAll_Mutate
      split: option.splits if_splits)

lemma cleanupAndReport_Mutate:
  assumes "Mutate_deleteProjectCard i \<in> set (snd (cleanupAndReport env a ids fs))"
  shows "\<exists>columns. getProjectBoardCards env = Inr columns
          \<and> (Mutate_deleteProjectCard i \<in> set (snd (reduceRecentlyMerged env columns))
              \<or> Mutate_deleteProjectCard i \<in> set (snd (handleColumns env ids columns)))"
proof (cases "getProjectBoardCards env")
  case (Inl e)
  with assms show ?thesis
    by (simp add: cleanupAndReport_def split: if_splits)
next
  case (Inr columns)
  with assms show ?thesis
    by (auto simp: cleanupAndReport_def snd_then_do split: if_splits sum.splits list.splits)
qed

lemma start_Mutate:
  assumes "Mutate_deleteProjectCard i \<in> set (snd (start env a))"
  shows "\<exists>prs ids columns. getAllOpenPRsAndCardIDs env = Inr (prs, ids)
          \<and> getProjectBoardCards env = Inr columns
          \<and> (Mutate_deleteProjectCard i \<in> set (snd (reduceRecentlyMerged env columns))
              \<or> Mutate_deleteProjectCard i \<in> set (snd (handleColumns env ids columns)))"
proof (cases "getAllOpenPRsAndCardIDs env")
  case (Inl e)
  with assms show ?thesis by (simp add: start_def)
next
  case (Inr r)
  obtain prs ids where r: "r = (prs, ids)" by (cases r)
  with Inr have f: "getAllOpenPRsAndCardIDs env = Inr (prs, ids)" by simp
  from assms have "Mutate_deleteProjectCard i
      \<in> set (snd (then_do (processPRs env a prs prs []) (cleanupAndReport env a ids)))"
    by (simp add: start_after_fetch [OF f])
  then obtain fs where "Mutate_deleteProjectCard i \<in> set (snd (cleanupAndReport env a ids fs))"
    by (auto simp: snd_then_do processPRs_no_Mutate split: sum.splits)
  from cleanupAndReport_Mutate [OF this] f show ?thesis by blast
qed

lemma main_Mutate:
  assumes "Mutate_deleteProjectCard i \<in> set (snd (main env flags tokens))"
  shows "\<exists>a. Mutate_deleteProjectCard i \<in> set (snd (start env a))"
proof (cases "coerce tokens")
  case (Inl e)
  with assms show ?thesis by (simp add: main_def)
next
  case (Inr ps)
  obtain r tr where st: "start env (flags\<lparr>positional := ps\<rparr>) = (r, tr)"
    by (cases "start env (flags\<lparr>positional := ps\<rparr>)")
  with assms Inr have "Mutate_deleteProjectCard i \<in> set tr"
    by (cases r) (simp_all add: main_def)
  with st have "Mutate_deleteProjectCard i \<in> set (snd (start env (flags\<lparr>positional := ps\<rparr>)))"
    by simp
  then show ?thesis ..
qed

section \<open>Facts about the regular expressions and the coercion\<close>

lemma not_digit_dash: "\<not> is_digit CHR ''-''"
  by (simp add: is_digit_def)

lemma match_range_iff:
  "match_range s = Some (lo, hi) \<longleftrightarrow> s = lo @ CHR ''-'' # hi \<and> all_digits lo \<and> all_digits hi"
proof
  assume m: "match_range s = Some (lo, hi)"
  then obtain c where d: "dropWhile is_digit s = c # hi"
    and c: "c = CHR ''-''" and lo: "lo = takeWhile is_digit s" "lo \<noteq> []" and hi: "all_digits hi"
    by (auto simp: match_range_def Let_def split: list.splits if_splits)
  have "s = takeWhile is_digit s @ dropWhile is_digit s" by simp
  with d c lo have "s = lo @ CHR ''-'' # hi" by simp
  moreover have "list_all is_digit lo"
    unfolding lo(1) list_all_iff by (auto dest: set_takeWhileD)
  ultimately show "s = lo @ CHR ''-'' # hi \<and> all_digits lo \<and> all_digits hi"
    using lo hi by (simp add: all_digits_def)
next
  assume a: "s = lo @ CHR ''-'' # hi \<and> all_digits lo \<and> all_digits hi"
  then have all: "\<forall>x\<in>set lo. is_digit x" and ne: "lo \<noteq> []"
    by (auto simp: all_digits_def list_all_iff)
  have t: "takeWhile is_digit s = lo"
    using a all not_digit_dash by (simp add: takeWhile_append2)
  have d: "dropWhile is_digit s = CHR ''-'' # hi"
    using a all not_digit_dash by (simp add: dropWhile_append2)
  show "match_range s = Some (lo, hi)"
    unfolding match_range_def t d using a ne by simp
qed

lemma match_range_None_iff:
  "match_range s = None \<longleftrightarrow>
     \<not> (\<exists>lo hi. s = lo @ CHR ''-'' # hi \<and> all_digits lo \<and> all_digits hi)"
proof (cases "match_range s")
  case None
  then show ?thesis using match_range_iff [of s] by auto
next
  case (Some p)
  then obtain lo hi where "match_range s = Some (lo, hi)" by (cases p) auto
  then show ?thesis using match_range_iff [of s lo hi] by auto
qed

lemma coerce_pr_bad:
  "coerce_pr t = Inl e \<longleftrightarrow>
     (\<exists>s. t = TStr s \<and> e = BadArg s \<and> \<not> all_digits s \<and> match_range s = None)"
  by (cases t) (auto split: option.splits)

lemma coerce_throws:
  "t \<in> set ts \<Longrightarrow> coerce_pr t = Inl e \<Longrightarrow>
     \<exists>t'\<in>set ts. \<exists>e'. coerce_pr t' = Inl e' \<and> coerce ts = Inl e'"
proof (induction ts)
  case Nil
  then show ?case by simp
next
  case (Cons u us)
  show ?case
  proof (cases "coerce_pr u")
    case (Inl e')
    then show ?thesis by auto
  next
    case (Inr p)
    with Cons.prems have "t \<in> set us" by auto
    from Cons.IH [OF this Cons.prems(2)] obtain t' e' where
      "t' \<in> set us" "coerce_pr t' = Inl e'" "coerce us = Inl e'" by blast
    with Inr show ?thesis by auto
  qed
qed

lemma coerce_append:
  "coerce ts1 = Inr ps1 \<Longrightarrow> coerce ts2 = Inr ps2 \<Longrightarrow> coerce (ts1 @ ts2) = Inr (ps1 @ ps2)"
  by (induction ts1 arbitrary: ps1) (auto split: sum.splits)

lemma coerce_nonempty: "coerce ts = Inr ps \<Longrightarrow> ts \<noteq> [] \<Longrightarrow> ps \<noteq> []"
  by (cases ts) (auto split: sum.splits)

lemma shouldRunOn_append:
  "ps1 \<noteq> [] \<Longrightarrow> ps2 \<noteq> [] \<Longrightarrow>
   shouldRunOn (ps1 @ ps2) n = (shouldRunOn ps1 n \<or> shouldRunOn ps2 n)"
  by (simp add: shouldRunOn_def list_ex_iff) blast

lemma shouldRunOn_tokens:
  "coerce ts = Inr ps \<Longrightarrow> ts \<noteq> [] \<Longrightarrow>
   shouldRunOn ps n = (\<exists>t\<in>set ts. \<exists>p. coerce_pr t = Inr p \<and> p n)"
proof (induction ts arbitrary: ps)
  case Nil
  then show ?case by simp
next
  case (Cons t ts)
  then obtain p ps' where p: "coerce_pr t = Inr p" and ps': "coerce ts = Inr ps'"
    and ps: "ps = p # ps'"
    by (auto split: sum.splits)
  show ?case
  proof (cases "ts = []")
    case True
    with p ps' ps show ?thesis by (simp add: shouldRunOn_def)
  next
    case False
    from Cons.IH [OF ps' False]
    have "shouldRunOn ps' n = (\<exists>t\<in>set ts. \<exists>p. coerce_pr t = Inr p \<and> p n)" .
    moreover have "ps' \<noteq> []" using ps' False by (rule coerce_nonempty)
    ultimately show ?thesis using p ps by (auto simp: shouldRunOn_def)
  qed
qed

lemma coerce_example:
  "coerce [TStr ''5'', TStr ''10-12''] = Inr [\<lambda>n. n = 5, \<lambda>n. 10 \<le> n \<and> n \<le> 12]"
  "coerce [TNum 5, TStr ''10-12''] = Inr [\<lambda>n. n = 5, \<lambda>n. 10 \<le> n \<and> n \<le> 12]"
  by (simp_all add: all_digits_def is_digit_def match_range_def to_number_def digit_val_def)

lemma shouldRunOn_example:
  "shouldRunOn [\<lambda>n. n = 5, \<lambda>n. 10 \<le> n \<and> n \<le> 12] n = (n \<in> {5, 10, 11, 12})"
  by (auto simp: shouldRunOn_def)

section \<open>Claims about the selection predicate and the arguments\<close>

text \<open>
  C6.  The selection predicate built from the tokens \<^verbatim>\<open>["5", "10-12"]\<close> (whether the
  parser hands over \<^verbatim>\<open>5\<close> as a string or as a number) accepts exactly the PR numbers
  5, 10, 11 and 12; built from no tokens it accepts every number; in general a non-empty
  token list accepts a number exactly when one of its tokens does, and the predicate of a
  concatenation of token lists is the disjunction of their predicates: tokens combine by
  union.
\<close>

theorem selection_predicate_union:
  "(\<exists>ps. coerce [TStr ''5'', TStr ''10-12''] = Inr ps
         \<and> (\<forall>n. shouldRunOn ps n = (n \<in> {5, 10, 11, 12})))
   \<and> (\<exists>ps. coerce [TNum 5, TStr ''10-12''] = Inr ps
         \<and> (\<forall>n. shouldRunOn ps n = (n \<in> {5, 10, 11, 12})))
   \<and> (coerce [] = Inr [] \<and> (\<forall>n. shouldRunOn [] n))
   \<and> (coerce ts = Inr ps \<and> ts \<noteq> [] \<longrightarrow>
        shouldRunOn ps n = (\<exists>t\<in>set ts. \<exists>p. coerce_pr t = Inr p \<and> p n))
   \<and> (coerce tsa = Inr psa \<and> coerce tsb = Inr psb \<and> tsa \<noteq> [] \<and> tsb \<noteq> [] \<longrightarrow>
        coerce (tsa @ tsb) = Inr (psa @ psb)
        \<and> shouldRunOn (psa @ psb) n = (shouldRunOn psa n \<or> shouldRunOn psb n))"
proof -
  have a: "\<exists>ps. coerce [TStr ''5'', TStr ''10-12''] = Inr ps
         \<and> (\<forall>n. shouldRunOn ps n = (n \<in> {5, 10, 11, 12}))"
    by (rule exI [of _ "[\<lambda>n. n = 5, \<lambda>n. 10 \<le> n \<and> n \<le> 12]"])
       (rule conjI [OF coerce_example(1) allI [OF shouldRunOn_example]])
  have b: "\<exists>ps. coerce [TNum 5, TStr ''10-12''] = Inr ps
         \<and> (\<forall>n. shouldRunOn ps n = (n \<in> {5, 10, 11, 12}))"
    by (rule exI [of _ "[\<lambda>n. n = 5, \<lambda>n. 10 \<le> n \<and> n \<le> 12]"])
       (rule conjI [OF coerce_example(2) allI [OF shouldRunOn_example]])
  have c: "coerce [] = Inr [] \<and> (\<forall>n. shouldRunOn [] n)"
    by (simp add: shouldRunOn_def)
  have d: "coerce ts = Inr ps \<and> ts \<noteq> [] \<longrightarrow>
        shouldRunOn ps n = (\<exists>t\<in>set ts. \<exists>p. coerce_pr t = Inr p \<and> p n)"
  proof
    assume h: "coerce ts = Inr ps \<and> ts \<noteq> []"
    show "shouldRunOn ps n = (\<exists>t\<in>set ts. \<exists>p. coerce_pr t = Inr p \<and> p n)"
      by (rule shouldRunOn_tokens [OF conjunct1 [OF h] conjunct2 [OF h]])
  qed
  have e: "coerce tsa = Inr psa \<and> coerce tsb = Inr psb \<and> tsa \<noteq> [] \<and> tsb \<noteq> [] \<longrightarrow>
        coerce (tsa @ tsb) = Inr (psa @ psb)
        \<and> shouldRunOn (psa @ psb) n = (shouldRunOn psa n \<or> shouldRunOn psb n)"
  proof
    assume h: "coerce tsa = Inr psa \<and> coerce tsb = Inr psb \<and> tsa \<noteq> [] \<and> tsb \<noteq> []"
    then have ca: "coerce tsa = Inr psa" and cb: "coerce tsb = Inr psb"
      and na: "tsa \<noteq> []" and nb: "tsb \<noteq> []"
      by simp_all
    have "psa \<noteq> []" using ca na by (rule coerce_nonempty)
    moreover have "psb \<noteq> []" using cb nb by (rule coerce_nonempty)
    ultimately have "shouldRunOn (psa @ psb) n = (shouldRunOn psa n \<or> shouldRunOn psb n)"
      by (rule shouldRunOn_append)
    moreover have "coerce (tsa @ tsb) = Inr (psa @ psb)"
      using ca cb by (rule coerce_append)
    ultimately show "coerce (tsa @ tsb) = Inr (psa @ psb)
        \<and> shouldRunOn (psa @ psb) n = (shouldRunOn psa n \<or> shouldRunOn psb n)"
      by simp
  qed
  show ?thesis
    by (rule conjI [OF a conjI [OF b conjI [OF c conjI [OF d e]]]])
qed

theorem selection_predicate_union_witness:
  "coerce [TNum 5, TStr ''10-12''] = Inr [\<lambda>n. n = 5, \<lambda>n. 10 \<le> n \<and> n \<le> 12]
   \<and> coerce [TNum 5] = Inr [\<lambda>n. n = 5]
   \<and> coerce [TStr ''10-12''] = Inr [\<lambda>n. 10 \<le> n \<and> n \<le> 12]
   \<and> shouldRunOn [\<lambda>n. n = 5, \<lambda>n. 10 \<le> n \<and> n \<le> 12] 11
   \<and> \<not> shouldRunOn [\<lambda>n. n = 5] 11
   \<and> shouldRunOn [\<lambda>n. 10 \<le> n \<and> n \<le> 12] 11
   \<and> coerce ([TNum 5] @ [TStr ''10-12'']) = Inr ([\<lambda>n. n = 5] @ [\<lambda>n. 10 \<le> n \<and> n \<le> 12])
   \<and> shouldRunOn ([\<lambda>n. n = 5] @ [\<lambda>n. 10 \<le> n \<and> n \<le> 12]) 11"
proof -
  note t = selection_predicate_union [where ts = "[TNum 5, TStr ''10-12'']"
        and ps = "[\<lambda>n. n = 5, \<lambda>n. 10 \<le> n \<and> n \<le> 12]" and n = 11
        and tsa = "[TNum 5]" and psa = "[\<lambda>n. n = 5]"
        and tsb = "[TStr ''10-12'']" and psb = "[\<lambda>n. 10 \<le> n \<and> n \<le> 12]"]
  have h1: "coerce [TNum 5, TStr ''10-12''] = Inr [\<lambda>n. n = 5, \<lambda>n. 10 \<le> n \<and> n \<le> 12]"
    by (rule coerce_example(2))
  have h2: "coerce [TNum 5] = Inr [\<lambda>n. n = 5]"
    by simp
  have h3: "coerce [TStr ''10-12''] = Inr [\<lambda>n. 10 \<le> n \<and> n \<le> 12]"
    by (simp add: all_digits_def is_digit_def match_range_def to_number_def digit_val_def)
  have n1: "[TNum 5] \<noteq> []" and n2: "[TStr ''10-12''] \<noteq> []"
    by simp_all
  have u: "coerce ([TNum 5] @ [TStr ''10-12'']) = Inr ([\<lambda>n. n = 5] @ [\<lambda>n. 10 \<le> n \<and> n \<le> 12])
        \<and> shouldRunOn ([\<lambda>n. n = 5] @ [\<lambda>n. 10 \<le> n \<and> n \<le> 12]) 11
            = (shouldRunOn [\<lambda>n. n = 5] 11 \<or> shouldRunOn [\<lambda>n. 10 \<le> n \<and> n \<le> 12] 11)"
    by (rule mp [OF conjunct2 [OF conjunct2 [OF conjunct2 [OF conjunct2 [OF t]]]]
                 conjI [OF h2 conjI [OF h3 conjI [OF n1 n2]]]])
  have s1: "shouldRunOn [\<lambda>n. n = 5, \<lambda>n. 10 \<le> n \<and> n \<le> 12] 11"
    and s2: "\<not> shouldRunOn [\<lambda>n. n = 5] 11"
    and s3: "shouldRunOn [\<lambda>n. 10 \<le> n \<and> n \<le> 12] 11"
    by (simp_all add: shouldRunOn_def)
  from u s3 have s4: "shouldRunOn ([\<lambda>n. n = 5] @ [\<lambda>n. 10 \<le> n \<and> n \<le> 12]) 11"
    by simp
  show ?thesis
    using h1 h2 h3 s1 s2 s3 s4 u by simp
qed

text \<open>
  C10.  A string token that is neither a run of decimal digits nor two such runs joined
  by a dash makes the coercion throw \<^verbatim>\<open>bad PR or PR range argument\<close> for that token, and
  with such a token anywhere among the arguments the process ends with exit code 1 having
  emitted nothing but the report of that error: \<^verbatim>\<open>start\<close> is never called, so no PR is
  fetched and no mutation is submitted.
\<close>

theorem bad_token_aborts_before_start:
  assumes "TStr s \<in> set tokens"
    and "\<not> all_digits s"
    and "\<not> (\<exists>lo hi. s = lo @ CHR ''-'' # hi \<and> all_digits lo \<and> all_digits hi)"
  shows "coerce_pr (TStr s) = Inl (BadArg s)
         \<and> (\<exists>s'. TStr s' \<in> set tokens \<and> coerce tokens = Inl (BadArg s')
                 \<and> main env flags tokens = (1, [Err_Usage (BadArg s')]))"
proof -
  have none: "match_range s = None"
    using assms(3) by (simp add: match_range_None_iff)
  with assms(2) have bad: "coerce_pr (TStr s) = Inl (BadArg s)"
    by simp
  from coerce_throws [OF assms(1) bad] obtain t' e' where
    t': "t' \<in> set tokens" "coerce_pr t' = Inl e'" "coerce tokens = Inl e'" by blast
  from t'(2) obtain s' where s': "t' = TStr s'" "e' = BadArg s'"
    by (auto simp: coerce_pr_bad)
  have "main env flags tokens = (1, [Err_Usage (BadArg s')])"
    using t'(3) s'(2) by (simp add: main_def)
  with bad t' s' show ?thesis by blast
qed

theorem bad_token_aborts_before_start_witness:
  "TStr ''12a'' \<in> set [TNum 5, TStr ''12a'', TStr ''x-y'']
   \<and> \<not> all_digits ''12a''
   \<and> match_range ''12a'' = None
   \<and> coerce [TNum 5, TStr ''12a'', TStr ''x-y''] = Inl (BadArg ''12a'')
   \<and> main env0 flags0 [TNum 5, TStr ''12a'', TStr ''x-y''] = (1, [Err_Usage (BadArg ''12a'')])"
proof -
  have h1: "TStr ''12a'' \<in> set [TNum 5, TStr ''12a'', TStr ''x-y'']"
    by simp
  have h2: "\<not> all_digits ''12a''"
    by (simp add: all_digits_def is_digit_def)
  have m: "match_range ''12a'' = None"
    by (simp add: match_range_def is_digit_def)
  then have h3: "\<not> (\<exists>lo hi. ''12a'' = lo @ CHR ''-'' # hi \<and> all_digits lo \<and> all_digits hi)"
    by (simp add: match_range_None_iff)
  have c: "coerce [TNum 5, TStr ''12a'', TStr ''x-y''] = Inl (BadArg ''12a'')"
    using h2 m by simp
  show ?thesis
    using h1 h2 m c bad_token_aborts_before_start [OF h1 h2 h3, of env0 flags0]
    by simp
qed

section \<open>Claims about the per-PR loop and the exit status\<close>

text \<open>
  C9.  If the query for a selected PR returns no pull request, the loop body writes the
  \<^verbatim>\<open>No PR with this number exists\<close> message and nothing else after the fetch (no
  planning, no execution), records no failure, and the loop goes on with the unchanged
  failure list; the outcome of the loop, and with it the exit code of the whole run, is
  the one the run would have had without that PR in the list of open PRs.
\<close>

theorem missing_pr_is_skipped:
  assumes sel: "shouldRunOn (positional a) pr"
    and info: "getPRInfo env pr = Inr info"
    and none: "pullRequest info = None"
  shows "processPR env a prs pr =
           (Inr None,
            [Log_Processing pr (indexOf prs pr + 1) (length prs), Call_getPRInfo pr]
            @ (if show_raw a then [Show_Raw (raw info)] else [])
            @ [Err_NoPR pr (raw info)])
       \<and> processPRs env a prs (pr # rest) fs =
           (fst (processPRs env a prs rest fs),
            snd (processPR env a prs pr) @ snd (processPRs env a prs rest fs))
       \<and> fst (processPRs env a prs (xs @ pr # ys) fs) = fst (processPRs env a prs (xs @ ys) fs)
       \<and> (getAllOpenPRsAndCardIDs env = Inr (xs @ pr # ys, ids)
             \<and> coerce tokens = Inr (positional a) \<longrightarrow>
           fst (main env a tokens)
             = fst (main (env\<lparr>getAllOpenPRsAndCardIDs := Inr (xs @ ys, ids)\<rparr>) a tokens))"
proof -
  have one: "processPR env a prs pr =
           (Inr None,
            [Log_Processing pr (indexOf prs pr + 1) (length prs), Call_getPRInfo pr]
            @ (if show_raw a then [Show_Raw (raw info)] else [])
            @ [Err_NoPR pr (raw info)])" for prs
    using info none by (rule processPR_no_pullRequest)
  have fst_one: "fst (processPR env a prs pr) = Inr None" for prs
    by (simp add: one)
  have loop: "processPRs env a prs (pr # rest) fs =
           (fst (processPRs env a prs rest fs),
            snd (processPR env a prs pr) @ snd (processPRs env a prs rest fs))"
    using sel fst_one [of prs] by (simp add: then_do_eq)
  have skip: "fst (processPRs env a prs (xs @ pr # ys) fs) = fst (processPRs env a prs (xs @ ys) fs)"
    using fst_one by (rule fst_processPRs_skip)
  have run: "getAllOpenPRsAndCardIDs env = Inr (xs @ pr # ys, ids)
             \<and> coerce tokens = Inr (positional a) \<longrightarrow>
           fst (main env a tokens)
             = fst (main (env\<lparr>getAllOpenPRsAndCardIDs := Inr (xs @ ys, ids)\<rparr>) a tokens)"
  proof
    assume h: "getAllOpenPRsAndCardIDs env = Inr (xs @ pr # ys, ids)
             \<and> coerce tokens = Inr (positional a)"
    then have "fst (start env a)
        = fst (start (env\<lparr>getAllOpenPRsAndCardIDs := Inr (xs @ ys, ids)\<rparr>) a)"
      using fst_one by (intro fst_start_skip) simp_all
    with h show "fst (main env a tokens)
             = fst (main (env\<lparr>getAllOpenPRsAndCardIDs := Inr (xs @ ys, ids)\<rparr>) a tokens)"
      by (simp add: fst_main)
  qed
  show ?thesis
    by (rule conjI [OF one conjI [OF loop conjI [OF skip run]]])
qed

theorem missing_pr_is_skipped_witness:
  "shouldRunOn (positional flags0) 7
   \<and> getPRInfo env_missing_pr 7 = Inr \<lparr> raw = 7, pullRequest = None \<rparr>
   \<and> processPR env_missing_pr flags0 [7, 8] 7
       = (Inr None, [Log_Processing 7 1 2, Call_getPRInfo 7, Err_NoPR 7 7])
   \<and> fst (processPRs env_missing_pr flags0 [7, 8] ([] @ 7 # [8]) [])
       = fst (processPRs env_missing_pr flags0 [7, 8] ([] @ [8]) [])
   \<and> getAllOpenPRsAndCardIDs env_missing_pr = Inr ([] @ 7 # [8], [])
   \<and> coerce [] = Inr (positional flags0)
   \<and> fst (main env_missing_pr flags0 []) = 0
   \<and> fst (main (env_missing_pr\<lparr>getAllOpenPRsAndCardIDs := Inr ([] @ [8], [])\<rparr>) flags0 []) = 0"
proof -
  have h1: "shouldRunOn (positional flags0) 7"
    by (simp add: shouldRunOn_def flags0_def)
  have h2: "getPRInfo env_missing_pr 7 = Inr \<lparr> raw = 7, pullRequest = None \<rparr>"
    by (simp add: env_missing_pr_def env0_def)
  have h3: "pullRequest \<lparr> raw = 7::int, pullRequest = None \<rparr> = None"
    by simp
  have h4: "getAllOpenPRsAndCardIDs env_missing_pr = Inr ([] @ 7 # [8], [])"
    by (simp add: env_missing_pr_def env0_def)
  have h5: "coerce [] = Inr (positional flags0)"
    by (simp add: flags0_def)
  have r: "fst (main env_missing_pr flags0 []) = 0"
    by (simp add: run_simps env_missing_pr_def)
  note t = missing_pr_is_skipped [OF h1 h2 h3, where prs = "[7, 8]" and xs = "[]" and ys = "[8]"
      and fs = "[]" and ids = "[]" and tokens = "[]" and rest = "[8]"]
  have c1: "processPR env_missing_pr flags0 [7, 8] 7
       = (Inr None, [Log_Processing 7 1 2, Call_getPRInfo 7, Err_NoPR 7 7])"
    using conjunct1 [OF t] by (simp add: flags0_def)
  have c3: "fst (processPRs env_missing_pr flags0 [7, 8] ([] @ 7 # [8]) [])
       = fst (processPRs env_missing_pr flags0 [7, 8] ([] @ [8]) [])"
    by (rule conjunct1 [OF conjunct2 [OF conjunct2 [OF t]]])
  have c4: "fst (main env_missing_pr flags0 [])
       = fst (main (env_missing_pr\<lparr>getAllOpenPRsAndCardIDs := Inr ([] @ [8], [])\<rparr>) flags0 [])"
    by (rule mp [OF conjunct2 [OF conjunct2 [OF conjunct2 [OF t]]] conjI [OF h4 h5]])
  have r': "fst (main (env_missing_pr\<lparr>getAllOpenPRsAndCardIDs := Inr ([] @ [8], [])\<rparr>) flags0 []) = 0"
    using c4 r by simp
  show ?thesis
    by (intro conjI h1 h2 c1 c3 h4 h5 r r')
qed

text \<open>
  C3, as stated, fails: with PRs 1 and 2 open and the executor failing on PR 1, the
  exception is not caught at the per-PR boundary.  It ends the run: PR 2 is never
  processed, no failure is recorded or listed, and the process exits with code 1.
\<close>

theorem exec_failure_aborts_run_counterexample:
  "processPRs env_exec_fails flags0 [1, 2] [1, 2] [] =
     (Inl (Thrown ''submit failed''),
      [Log_Processing 1 1 2, Call_getPRInfo 1, Call_executePrActions [] 1 False])
   \<and> main env_exec_fails flags0 [] =
     (1, [Log_GettingOpenPRs, Call_getAllOpenPRsAndCardIDs,
          Log_Processing 1 1 2, Call_getPRInfo 1, Call_executePrActions [] 1 False,
          Err_Top (Thrown ''submit failed'')])"
  by (simp add: run_simps env_exec_fails_def)

text \<open>
  C3, amended.  For a selected PR whose pull request was fetched: an exception thrown by
  the derive stage is caught, written out, recorded as the pair of the error and the PR
  number at the end of the failure list, and the loop continues with the next PR.  An
  exception thrown by the plan or the execute stage (a failed mutation submission among
  them) is not caught: it leaves the loop with nothing of the remaining PRs processed,
  and an exception that leaves the loop ends \<^verbatim>\<open>start\<close> before the cleanup.
\<close>

theorem only_derive_exceptions_are_caught:
  assumes sel: "shouldRunOn (positional a) pr"
    and info: "getPRInfo env pr = Inr info"
    and pull: "pullRequest info = Some p"
  shows "(deriveStateForPR env p = Inl e \<longrightarrow>
            processPR env a prs pr =
              (Inr (Some (e, pr)),
               [Log_Processing pr (indexOf prs pr + 1) (length prs), Call_getPRInfo pr]
               @ (if show_raw a then [Show_Raw (raw info)] else [])
               @ [Err_Error e])
            \<and> processPRs env a prs (pr # rest) fs =
              (fst (processPRs env a prs rest (fs @ [(e, pr)])),
               snd (processPR env a prs pr) @ snd (processPRs env a prs rest (fs @ [(e, pr)]))))
       \<and> (deriveStateForPR env p = Inr st
            \<and> (snd (computeActions env st (show_extended a)) = Inl e
                \<or> (\<exists>actions. snd (computeActions env st (show_extended a)) = Inr actions
                      \<and> executePrActions env actions p (dry a) = Inl e)) \<longrightarrow>
            processPRs env a prs (pr # rest) fs = (Inl e, snd (processPR env a prs pr)))
       \<and> (getAllOpenPRsAndCardIDs env = Inr (prs, ids)
            \<and> fst (processPRs env a prs prs []) = Inl e \<longrightarrow>
            start env a =
              (Inl e,
               [Log_GettingOpenPRs, Call_getAllOpenPRsAndCardIDs]
               @ snd (processPRs env a prs prs [])))"
proof -
  have caught: "deriveStateForPR env p = Inl e \<longrightarrow>
            processPR env a prs pr =
              (Inr (Some (e, pr)),
               [Log_Processing pr (indexOf prs pr + 1) (length prs), Call_getPRInfo pr]
               @ (if show_raw a then [Show_Raw (raw info)] else [])
               @ [Err_Error e])
            \<and> processPRs env a prs (pr # rest) fs =
              (fst (processPRs env a prs rest (fs @ [(e, pr)])),
               snd (processPR env a prs pr) @ snd (processPRs env a prs rest (fs @ [(e, pr)])))"
  proof
    assume d: "deriveStateForPR env p = Inl e"
    have one: "processPR env a prs pr =
              (Inr (Some (e, pr)),
               [Log_Processing pr (indexOf prs pr + 1) (length prs), Call_getPRInfo pr]
               @ (if show_raw a then [Show_Raw (raw info)] else [])
               @ [Err_Error e])"
      using info pull d by (rule processPR_derive_throws)
    then have "fst (processPR env a prs pr) = Inr (Some (e, pr))"
      by simp
    then have "processPRs env a prs (pr # rest) fs =
              (fst (processPRs env a prs rest (fs @ [(e, pr)])),
               snd (processPR env a prs pr) @ snd (processPRs env a prs rest (fs @ [(e, pr)])))"
      using sel by (simp add: then_do_eq)
    with one show "processPR env a prs pr =
              (Inr (Some (e, pr)),
               [Log_Processing pr (indexOf prs pr + 1) (length prs), Call_getPRInfo pr]
               @ (if show_raw a then [Show_Raw (raw info)] else [])
               @ [Err_Error e])
            \<and> processPRs env a prs (pr # rest) fs =
              (fst (processPRs env a prs rest (fs @ [(e, pr)])),
               snd (processPR env a prs pr) @ snd (processPRs env a prs rest (fs @ [(e, pr)])))"
      by (rule conjI)
  qed
  have escapes: "deriveStateForPR env p = Inr st
            \<and> (snd (computeActions env st (show_extended a)) = Inl e
                \<or> (\<exists>actions. snd (computeActions env st (show_extended a)) = Inr actions
                      \<and> executePrActions env actions p (dry a) = Inl e)) \<longrightarrow>
            processPRs env a prs (pr # rest) fs = (Inl e, snd (processPR env a prs pr))"
  proof
    assume h: "deriveStateForPR env p = Inr st
            \<and> (snd (computeActions env st (show_extended a)) = Inl e
                \<or> (\<exists>actions. snd (computeActions env st (show_extended a)) = Inr actions
                      \<and> executePrActions env actions p (dry a) = Inl e))"
    then have d: "deriveStateForPR env p = Inr st" by simp
    obtain xs r where c: "computeActions env st (show_extended a) = (xs, r)"
      by (cases "computeActions env st (show_extended a)")
    from h c consider (plan) "r = Inl e"
      | (exec) actions where "r = Inr actions" "executePrActions env actions p (dry a) = Inl e"
      by auto
    then have "fst (processPR env a prs pr) = Inl e"
    proof cases
      case plan
      with c have "computeActions env st (show_extended a) = (xs, Inl e)" by simp
      from processPR_plan_throws [OF info pull d this] show ?thesis by simp
    next
      case exec
      with c have "computeActions env st (show_extended a) = (xs, Inr actions)" by simp
      from processPR_execute_throws [OF info pull d this exec(2)] show ?thesis by simp
    qed
    then show "processPRs env a prs (pr # rest) fs = (Inl e, snd (processPR env a prs pr))"
      using sel by (simp add: then_do_throw)
  qed
  have aborts: "getAllOpenPRsAndCardIDs env = Inr (prs, ids)
            \<and> fst (processPRs env a prs prs []) = Inl e \<longrightarrow>
            start env a =
              (Inl e,
               [Log_GettingOpenPRs, Call_getAllOpenPRsAndCardIDs]
               @ snd (processPRs env a prs prs []))"
  proof
    assume h: "getAllOpenPRsAndCardIDs env = Inr (prs, ids)
            \<and> fst (processPRs env a prs prs []) = Inl e"
    show "start env a =
              (Inl e,
               [Log_GettingOpenPRs, Call_getAllOpenPRsAndCardIDs]
               @ snd (processPRs env a prs prs []))"
      by (rule start_loop_throws [OF conjunct1 [OF h] conjunct2 [OF h]])
  qed
  show ?thesis
    by (rule conjI [OF caught conjI [OF escapes aborts]])
qed

theorem only_derive_exceptions_are_caught_witness:
  "shouldRunOn (positional flags0) 1
   \<and> getPRInfo env_derive_fails 1 = Inr \<lparr> raw = 1, pullRequest = Some 1 \<rparr>
   \<and> deriveStateForPR env_derive_fails 1 = Inl (Thrown ''bad metadata'')
   \<and> processPRs env_derive_fails flags0 [1, 2] [1, 2] [] =
       (Inr [(Thrown ''bad metadata'', 1)],
        [Log_Processing 1 1 2, Call_getPRInfo 1, Err_Error (Thrown ''bad metadata''),
         Log_Processing 2 2 2, Call_getPRInfo 2, Call_executePrActions [] 2 False])
   \<and> getPRInfo env_exec_fails 1 = Inr \<lparr> raw = 1, pullRequest = Some 1 \<rparr>
   \<and> deriveStateForPR env_exec_fails 1 = Inr (BotOther ''info'' None)
   \<and> snd (computeActions env_exec_fails (BotOther ''info'' None) (show_extended flags0)) = Inr []
   \<and> executePrActions env_exec_fails [] 1 (dry flags0) = Inl (Thrown ''submit failed'')
   \<and> processPRs env_exec_fails flags0 [1, 2] [1, 2] [] =
       (Inl (Thrown ''submit failed''),
        [Log_Processing 1 1 2, Call_getPRInfo 1, Call_executePrActions [] 1 False])
   \<and> getAllOpenPRsAndCardIDs env_exec_fails = Inr ([1, 2], [])
   \<and> start env_exec_fails flags0 =
       (Inl (Thrown ''submit failed''),
        [Log_GettingOpenPRs, Call_getAllOpenPRsAndCardIDs,
         Log_Processing 1 1 2, Call_getPRInfo 1, Call_executePrActions [] 1 False])"
proof -
  have sel: "shouldRunOn (positional flags0) 1"
    by (simp add: shouldRunOn_def flags0_def)
  have pull: "pullRequest \<lparr> raw = 1::int, pullRequest = Some 1 \<rparr> = Some 1"
    by simp
  have d1: "getPRInfo env_derive_fails 1 = Inr \<lparr> raw = 1, pullRequest = Some 1 \<rparr>"
    and d2: "deriveStateForPR env_derive_fails 1 = Inl (Thrown ''bad metadata'')"
    by (simp_all add: env_derive_fails_def env0_def)
  have x1: "getPRInfo env_exec_fails 1 = Inr \<lparr> raw = 1, pullRequest = Some 1 \<rparr>"
    and x2: "deriveStateForPR env_exec_fails 1 = Inr (BotOther ''info'' None)"
    and x3: "snd (computeActions env_exec_fails (BotOther ''info'' None) (show_extended flags0)) = Inr []"
    and x4: "executePrActions env_exec_fails [] 1 (dry flags0) = Inl (Thrown ''submit failed'')"
    and x5: "getAllOpenPRsAndCardIDs env_exec_fails = Inr ([1, 2], [])"
    by (simp_all add: env_exec_fails_def env0_def)
  note td = only_derive_exceptions_are_caught [OF sel d1 pull,
      where e = "Thrown ''bad metadata''" and prs = "[1, 2]" and rest = "[2]" and fs = "[]"]
  note tx = only_derive_exceptions_are_caught [OF sel x1 pull,
      where e = "Thrown ''submit failed''" and prs = "[1, 2]" and rest = "[2]" and fs = "[]"
        and st = "BotOther ''info'' None" and ids = "[]"]
  have rest: "processPRs env_derive_fails flags0 [1, 2] [2] ([] @ [(Thrown ''bad metadata'', 1)])
      = (Inr [(Thrown ''bad metadata'', 1)],
         [Log_Processing 2 2 2, Call_getPRInfo 2, Call_executePrActions [] 2 False])"
    by (simp add: run_simps env_derive_fails_def)
  have c1: "processPRs env_derive_fails flags0 [1, 2] [1, 2] [] =
       (Inr [(Thrown ''bad metadata'', 1)],
        [Log_Processing 1 1 2, Call_getPRInfo 1, Err_Error (Thrown ''bad metadata''),
         Log_Processing 2 2 2, Call_getPRInfo 2, Call_executePrActions [] 2 False])"
    using mp [OF conjunct1 [OF td] d2] rest by (simp add: flags0_def)
  have one: "snd (processPR env_exec_fails flags0 [1, 2] 1)
      = [Log_Processing 1 1 2, Call_getPRInfo 1, Call_executePrActions [] 1 False]"
    by (simp add: run_simps env_exec_fails_def)
  have "snd (computeActions env_exec_fails (BotOther ''info'' None) (show_extended flags0)) = Inl (Thrown ''submit failed'')
        \<or> (\<exists>actions. snd (computeActions env_exec_fails (BotOther ''info'' None) (show_extended flags0)) = Inr actions
              \<and> executePrActions env_exec_fails actions 1 (dry flags0) = Inl (Thrown ''submit failed''))"
    using x3 x4 by blast
  from mp [OF conjunct1 [OF conjunct2 [OF tx]] conjI [OF x2 this]]
  have c2: "processPRs env_exec_fails flags0 [1, 2] [1, 2] [] =
       (Inl (Thrown ''submit failed''),
        [Log_Processing 1 1 2, Call_getPRInfo 1, Call_executePrActions [] 1 False])"
    by (simp add: one)
  then have "fst (processPRs env_exec_fails flags0 [1, 2] [1, 2] []) = Inl (Thrown ''submit failed'')"
    by simp
  from mp [OF conjunct2 [OF conjunct2 [OF tx]] conjI [OF x5 this]]
  have c3: "start env_exec_fails flags0 =
       (Inl (Thrown ''submit failed''),
        [Log_GettingOpenPRs, Call_getAllOpenPRsAndCardIDs,
         Log_Processing 1 1 2, Call_getPRInfo 1, Call_executePrActions [] 1 False])"
    by (simp add: c2 del: processPRs.simps)
  show ?thesis
    by (intro conjI sel d1 d2 c1 x1 x2 x3 x4 c2 x5 c3)
qed

text \<open>
  C4, as stated, fails: with PR 101 deriving to the error variant with message
  \<^verbatim>\<open>CI failed\<close> (and the planner planning nothing for it), the message is written out
  but no failure is recorded for PR 101; the run ends with \<^verbatim>\<open>Done\<close> and exit code 0.
\<close>

theorem error_result_counterexample:
  "fst (processPRs env_ci_failed flags0 [101, 102] [101, 102] []) = Inr []
   \<and> main env_ci_failed flags0 [] =
     (0, [Log_GettingOpenPRs, Call_getAllOpenPRsAndCardIDs,
          Log_Processing 101 1 2, Call_getPRInfo 101,
          Err_StateError ''CI failed'', Log_Message ''CI failed'',
          Call_executePrActions [] 101 False,
          Log_Processing 102 2 2, Call_getPRInfo 102, Log_Message ''ok'',
          Call_executePrActions [7] 102 False,
          Log_CleaningUpCards, Call_getProjectBoardCards, Log_Done])"
  by (simp add: run_simps env_ci_failed_def)

text \<open>
  C4, amended.  A selected PR whose derived result is the error variant has its message
  written to the error output and to the log, and is then planned and executed like any
  other result (line 107: keep processing); when planner and executor return normally
  nothing is recorded for it, so the loop continues with the unchanged failure list and
  the final status does not reflect it.
\<close>

theorem error_result_is_not_a_failure:
  assumes sel: "shouldRunOn (positional a) pr"
    and info: "getPRInfo env pr = Inr info"
    and pull: "pullRequest info = Some p"
    and derive: "deriveStateForPR env p = Inr (BotError m)"
    and plan: "computeActions env (BotError m) (show_extended a) = (xs, Inr actions)"
    and exec: "executePrActions env actions p (dry a) = Inr mutations"
  shows "processPR env a prs pr =
           (Inr None,
            [Log_Processing pr (indexOf prs pr + 1) (length prs), Call_getPRInfo pr]
            @ (if show_raw a then [Show_Raw (raw info)] else [])
            @ (if show_basic a then [Show_Basic (BotError m)] else [])
            @ [Err_StateError m, Log_Message m]
            @ (if show_extended a then map Show_Extended xs else [])
            @ (if show_actions a then [Show_Actions actions] else [])
            @ [Call_executePrActions actions p (dry a)]
            @ (if (case show_mutations a of Some b \<Rightarrow> b | None \<Rightarrow> dry a)
               then [Show_Mutations mutations] else []))
       \<and> processPRs env a prs (pr # rest) fs =
           (fst (processPRs env a prs rest fs),
            snd (processPR env a prs pr) @ snd (processPRs env a prs rest fs))"
proof -
  have one: "processPR env a prs pr =
           (Inr None,
            [Log_Processing pr (indexOf prs pr + 1) (length prs), Call_getPRInfo pr]
            @ (if show_raw a then [Show_Raw (raw info)] else [])
            @ (if show_basic a then [Show_Basic (BotError m)] else [])
            @ [Err_StateError m, Log_Message m]
            @ (if show_extended a then map Show_Extended xs else [])
            @ (if show_actions a then [Show_Actions actions] else [])
            @ [Call_executePrActions actions p (dry a)]
            @ (if (case show_mutations a of Some b \<Rightarrow> b | None \<Rightarrow> dry a)
               then [Show_Mutations mutations] else []))"
    using processPR_executed [OF info pull derive plan exec, of prs]
    by (simp add: state_events_def)
  then have "fst (processPR env a prs pr) = Inr None"
    by simp
  then have "processPRs env a prs (pr # rest) fs =
           (fst (processPRs env a prs rest fs),
            snd (processPR env a prs pr) @ snd (processPRs env a prs rest fs))"
    using sel by (simp add: then_do_eq)
  with one show ?thesis by (rule conjI)
qed

theorem error_result_is_not_a_failure_witness:
  "shouldRunOn (positional flags0) 101
   \<and> getPRInfo env_ci_failed 101 = Inr \<lparr> raw = 101, pullRequest = Some 101 \<rparr>
   \<and> deriveStateForPR env_ci_failed 101 = Inr (BotError ''CI failed'')
   \<and> computeActions env_ci_failed (BotError ''CI failed'') (show_extended flags0) = ([], Inr [])
   \<and> executePrActions env_ci_failed [] 101 (dry flags0) = Inr []
   \<and> processPR env_ci_failed flags0 [101, 102] 101 =
       (Inr None,
        [Log_Processing 101 1 2, Call_getPRInfo 101,
         Err_StateError ''CI failed'', Log_Message ''CI failed'',
         Call_executePrActions [] 101 False])
   \<and> processPRs env_ci_failed flags0 [101, 102] [101, 102] [] =
       (Inr [],
        [Log_Processing 101 1 2, Call_getPRInfo 101,
         Err_StateError ''CI failed'', Log_Message ''CI failed'',
         Call_executePrActions [] 101 False,
         Log_Processing 102 2 2, Call_getPRInfo 102, Log_Message ''ok'',
         Call_executePrActions [7] 102 False])"
proof -
  have sel: "shouldRunOn (positional flags0) 101"
    by (simp add: shouldRunOn_def flags0_def)
  have pull: "pullRequest \<lparr> raw = 101::int, pullRequest = Some 101 \<rparr> = Some 101"
    by simp
  have h1: "getPRInfo env_ci_failed 101 = Inr \<lparr> raw = 101, pullRequest = Some 101 \<rparr>"
    and h2: "deriveStateForPR env_ci_failed 101 = Inr (BotError ''CI failed'')"
    and h3: "computeActions env_ci_failed (BotError ''CI failed'') (show_extended flags0) = ([], Inr [])"
    and h4: "executePrActions env_ci_failed [] 101 (dry flags0) = Inr []"
    by (simp_all add: env_ci_failed_def env0_def)
  note t = error_result_is_not_a_failure [OF sel h1 pull h2 h3 h4,
      where prs = "[101, 102]" and rest = "[102]" and fs = "[]"]
  have c1: "processPR env_ci_failed flags0 [101, 102] 101 =
       (Inr None,
        [Log_Processing 101 1 2, Call_getPRInfo 101,
         Err_StateError ''CI failed'', Log_Message ''CI failed'',
         Call_executePrActions [] 101 False])"
    using conjunct1 [OF t] by (simp add: flags0_def)
  have rest: "processPRs env_ci_failed flags0 [101, 102] [102] [] =
       (Inr [], [Log_Processing 102 2 2, Call_getPRInfo 102, Log_Message ''ok'',
         Call_executePrActions [7] 102 False])"
    by (simp add: run_simps env_ci_failed_def)
  have c2: "processPRs env_ci_failed flags0 [101, 102] [101, 102] [] =
       (Inr [],
        [Log_Processing 101 1 2, Call_getPRInfo 101,
         Err_StateError ''CI failed'', Log_Message ''CI failed'',
         Call_executePrActions [] 101 False,
         Log_Processing 102 2 2, Call_getPRInfo 102, Log_Message ''ok'',
         Call_executePrActions [7] 102 False])"
    using conjunct2 [OF t] by (simp add: c1 rest del: processPRs.simps)
  show ?thesis
    by (intro conjI sel h1 h2 h3 h4 c1 c2)
qed

text \<open>
  C5, as stated, fails: with no open PR at all (so no per-PR failure recorded), cleanup
  enabled and a board without the \<^verbatim>\<open>Recently Merged\<close> column, the process exits
  with code 1.
\<close>

theorem exit_code_counterexample:
  "getAllOpenPRsAndCardIDs env_no_archive = Inr ([], [])
   \<and> processPRs env_no_archive flags0 [] [] [] = (Inr [], [])
   \<and> main env_no_archive flags0 [] =
     (1, [Log_GettingOpenPRs, Call_getAllOpenPRsAndCardIDs,
          Log_CleaningUpCards, Call_getProjectBoardCards,
          Err_Top (NoRecentlyMerged [''Needs Maintainer Review''])])"
  by (simp add: run_simps env_no_archive_def)

text \<open>
  C5, amended.  Provided the arguments are well formed, the list of open PRs is fetched
  and no exception leaves the per-PR loop, which records the failures \<open>fs\<close>: with
  dry-run set or cleanup disabled the process exits with code 0 whatever \<open>fs\<close> is;
  otherwise, provided the cleanup runs to its end without an exception, the process
  exits with code 0 after \<^verbatim>\<open>Done\<close> if \<open>fs\<close> is empty, and else with code 1 after
  printing every recorded pair in order, the error carried to the top level being the one
  of the first recorded failure.
\<close>

theorem exit_code_contract:
  assumes tok: "coerce tokens = Inr (positional a)"
    and fetch: "getAllOpenPRsAndCardIDs env = Inr (prs, ids)"
    and loop: "processPRs env a prs prs [] = (Inr fs, tr1)"
  shows "(dry a \<or> \<not> cleanup a \<longrightarrow>
            main env a tokens = (0, [Log_GettingOpenPRs, Call_getAllOpenPRsAndCardIDs] @ tr1))
       \<and> (\<not> dry a \<and> cleanup a \<and> getProjectBoardCards env = Inr columns
            \<and> reduceRecentlyMerged env columns = (Inr (), tr2)
            \<and> handleColumns env ids columns = (Inr (), tr3) \<longrightarrow>
            main env a tokens =
              (if fs = []
               then (0, [Log_GettingOpenPRs, Call_getAllOpenPRsAndCardIDs] @ tr1
                        @ [Log_CleaningUpCards, Call_getProjectBoardCards] @ tr2 @ tr3
                        @ [Log_Done])
               else (1, [Log_GettingOpenPRs, Call_getAllOpenPRsAndCardIDs] @ tr1
                        @ [Log_CleaningUpCards, Call_getProjectBoardCards] @ tr2 @ tr3
                        @ Err_FailedHeader # map (\<lambda>(e, pr). Err_Failed pr e) fs
                        @ [Err_Top (fst (hd fs))])))"
proof -
  note st = start_loop_done [OF fetch loop]
  have skipped: "dry a \<or> \<not> cleanup a \<longrightarrow>
            main env a tokens = (0, [Log_GettingOpenPRs, Call_getAllOpenPRsAndCardIDs] @ tr1)"
  proof
    assume "dry a \<or> \<not> cleanup a"
    then have "cleanupAndReport env a ids fs = (Inr (), [])"
      by (rule cleanupAndReport_skipped)
    with st have "start env a = (Inr (), [Log_GettingOpenPRs, Call_getAllOpenPRsAndCardIDs] @ tr1)"
      by simp
    then show "main env a tokens = (0, [Log_GettingOpenPRs, Call_getAllOpenPRsAndCardIDs] @ tr1)"
      by (simp add: main_self [OF tok])
  qed
  have cleaned: "\<not> dry a \<and> cleanup a \<and> getProjectBoardCards env = Inr columns
            \<and> reduceRecentlyMerged env columns = (Inr (), tr2)
            \<and> handleColumns env ids columns = (Inr (), tr3) \<longrightarrow>
            main env a tokens =
              (if fs = []
               then (0, [Log_GettingOpenPRs, Call_getAllOpenPRsAndCardIDs] @ tr1
                        @ [Log_CleaningUpCards, Call_getProjectBoardCards] @ tr2 @ tr3
                        @ [Log_Done])
               else (1, [Log_GettingOpenPRs, Call_getAllOpenPRsAndCardIDs] @ tr1
                        @ [Log_CleaningUpCards, Call_getProjectBoardCards] @ tr2 @ tr3
                        @ Err_FailedHeader # map (\<lambda>(e, pr). Err_Failed pr e) fs
                        @ [Err_Top (fst (hd fs))]))"
  proof
    assume h: "\<not> dry a \<and> cleanup a \<and> getProjectBoardCards env = Inr columns
            \<and> reduceRecentlyMerged env columns = (Inr (), tr2)
            \<and> handleColumns env ids columns = (Inr (), tr3)"
    note h1 = conjunct1 [OF h] and r1 = conjunct2 [OF h]
    note h2 = conjunct1 [OF r1] and r2 = conjunct2 [OF r1]
    note h3 = conjunct1 [OF r2] and r3 = conjunct2 [OF r2]
    note h4 = conjunct1 [OF r3] and h5 = conjunct2 [OF r3]
    have "cleanupAndReport env a ids fs =
     (case fs of
        [] \<Rightarrow> (Inr (), [Log_CleaningUpCards, Call_getProjectBoardCards] @ tr2 @ tr3 @ [Log_Done])
      | f # fs' \<Rightarrow>
          (Inl (fst f),
           [Log_CleaningUpCards, Call_getProjectBoardCards] @ tr2 @ tr3
           @ Err_FailedHeader # map (\<lambda>(e, pr). Err_Failed pr e) fs))"
      by (rule cleanupAndReport_done [OF h1 h2 h3 h4 h5])
    with st show "main env a tokens =
              (if fs = []
               then (0, [Log_GettingOpenPRs, Call_getAllOpenPRsAndCardIDs] @ tr1
                        @ [Log_CleaningUpCards, Call_getProjectBoardCards] @ tr2 @ tr3
                        @ [Log_Done])
               else (1, [Log_GettingOpenPRs, Call_getAllOpenPRsAndCardIDs] @ tr1
                        @ [Log_CleaningUpCards, Call_getProjectBoardCards] @ tr2 @ tr3
                        @ Err_FailedHeader # map (\<lambda>(e, pr). Err_Failed pr e) fs
                        @ [Err_Top (fst (hd fs))]))"
      by (cases fs) (simp_all add: main_self [OF tok])
  qed
  from skipped cleaned show ?thesis by (rule conjI)
qed

theorem exit_code_contract_witness:
  "coerce [] = Inr (positional flags0)
   \<and> getAllOpenPRsAndCardIDs env_derive_fails = Inr ([1, 2], [])
   \<and> processPRs env_derive_fails flags0 [1, 2] [1, 2] [] =
       (Inr [(Thrown ''bad metadata'', 1)],
        [Log_Processing 1 1 2, Call_getPRInfo 1, Err_Error (Thrown ''bad metadata''),
         Log_Processing 2 2 2, Call_getPRInfo 2, Call_executePrActions [] 2 False])
   \<and> \<not> dry flags0 \<and> cleanup flags0
   \<and> getProjectBoardCards env_derive_fails
       = Inr [\<lparr> name = ''Recently Merged'', cards = [], totalCount = 0 \<rparr>]
   \<and> reduceRecentlyMerged env_derive_fails
       [\<lparr> name = ''Recently Merged'', cards = [], totalCount = 0 \<rparr>] = (Inr (), [])
   \<and> handleColumns env_derive_fails []
       [\<lparr> name = ''Recently Merged'', cards = [], totalCount = 0 \<rparr>] = (Inr (), [])
   \<and> main env_derive_fails flags0 [] =
       (1, [Log_GettingOpenPRs, Call_getAllOpenPRsAndCardIDs,
            Log_Processing 1 1 2, Call_getPRInfo 1, Err_Error (Thrown ''bad metadata''),
            Log_Processing 2 2 2, Call_getPRInfo 2, Call_executePrActions [] 2 False,
            Log_CleaningUpCards, Call_getProjectBoardCards,
            Err_FailedHeader, Err_Failed 1 (Thrown ''bad metadata''),
            Err_Top (Thrown ''bad metadata'')])
   \<and> coerce [] = Inr (positional (flags0\<lparr>dry := True\<rparr>))
   \<and> processPRs env_derive_fails (flags0\<lparr>dry := True\<rparr>) [1, 2] [1, 2] [] =
       (Inr [(Thrown ''bad metadata'', 1)],
        [Log_Processing 1 1 2, Call_getPRInfo 1, Err_Error (Thrown ''bad metadata''),
         Log_Processing 2 2 2, Call_getPRInfo 2, Call_executePrActions [] 2 True,
         Show_Mutations []])
   \<and> dry (flags0\<lparr>dry := True\<rparr>)
   \<and> main env_derive_fails (flags0\<lparr>dry := True\<rparr>) [] =
       (0, [Log_GettingOpenPRs, Call_getAllOpenPRsAndCardIDs,
            Log_Processing 1 1 2, Call_getPRInfo 1, Err_Error (Thrown ''bad metadata''),
            Log_Processing 2 2 2, Call_getPRInfo 2, Call_executePrActions [] 2 True,
            Show_Mutations []])"
proof -
  have tok: "coerce [] = Inr (positional flags0)"
    and tok': "coerce [] = Inr (positional (flags0\<lparr>dry := True\<rparr>))"
    and fl: "\<not> dry flags0" "cleanup flags0" "dry (flags0\<lparr>dry := True\<rparr>)"
    by (simp_all add: flags0_def)
  have fetch: "getAllOpenPRsAndCardIDs env_derive_fails = Inr ([1, 2], [])"
    and cols: "getProjectBoardCards env_derive_fails
       = Inr [\<lparr> name = ''Recently Merged'', cards = [], totalCount = 0 \<rparr>]"
    by (simp_all add: env_derive_fails_def env0_def)
  have loop: "processPRs env_derive_fails flags0 [1, 2] [1, 2] [] =
       (Inr [(Thrown ''bad metadata'', 1)],
        [Log_Processing 1 1 2, Call_getPRInfo 1, Err_Error (Thrown ''bad metadata''),
         Log_Processing 2 2 2, Call_getPRInfo 2, Call_executePrActions [] 2 False])"
    by (simp add: run_simps env_derive_fails_def)
  have loop': "processPRs env_derive_fails (flags0\<lparr>dry := True\<rparr>) [1, 2] [1, 2] [] =
       (Inr [(Thrown ''bad metadata'', 1)],
        [Log_Processing 1 1 2, Call_getPRInfo 1, Err_Error (Thrown ''bad metadata''),
         Log_Processing 2 2 2, Call_getPRInfo 2, Call_executePrActions [] 2 True,
         Show_Mutations []])"
    by (simp add: run_simps env_derive_fails_def)
  have red: "reduceRecentlyMerged env_derive_fails
       [\<lparr> name = ''Recently Merged'', cards = [], totalCount = 0 \<rparr>] = (Inr (), [])"
    by (simp add: run_simps)
  have han: "handleColumns env_derive_fails []
       [\<lparr> name = ''Recently Merged'', cards = [], totalCount = 0 \<rparr>] = (Inr (), [])"
    by simp
  note t = exit_code_contract [OF tok fetch loop]
  note t' = exit_code_contract [OF tok' fetch loop']
  have c1: "main env_derive_fails flags0 [] =
       (1, [Log_GettingOpenPRs, Call_getAllOpenPRsAndCardIDs,
            Log_Processing 1 1 2, Call_getPRInfo 1, Err_Error (Thrown ''bad metadata''),
            Log_Processing 2 2 2, Call_getPRInfo 2, Call_executePrActions [] 2 False,
            Log_CleaningUpCards, Call_getProjectBoardCards,
            Err_FailedHeader, Err_Failed 1 (Thrown ''bad metadata''),
            Err_Top (Thrown ''bad metadata'')])"
    using mp [OF conjunct2 [OF t] conjI [OF fl(1) conjI [OF fl(2) conjI [OF cols conjI [OF red han]]]]]
    by simp
  have c2: "main env_derive_fails (flags0\<lparr>dry := True\<rparr>) [] =
       (0, [Log_GettingOpenPRs, Call_getAllOpenPRsAndCardIDs,
            Log_Processing 1 1 2, Call_getPRInfo 1, Err_Error (Thrown ''bad metadata''),
            Log_Processing 2 2 2, Call_getPRInfo 2, Call_executePrActions [] 2 True,
            Show_Mutations []])"
    using mp [OF conjunct1 [OF t'] disjI1 [OF fl(3)]]
    by simp
  show ?thesis
    by (intro conjI tok fetch loop fl cols red han c1 tok' loop' c2)
qed

text \<open>
  C8.  If no fetched column is named \<^verbatim>\<open>Recently Merged\<close>, the reduction of the
  archive column throws the configuration error naming the columns found, without having
  emitted anything; the cleanup ends there, after the fetch of the board and before any
  lookup or deletion; and the run exits with code 1 carrying that error, whatever
  failures the per-PR loop recorded, none of which is listed.
\<close>

theorem missing_archive_column_is_fatal:
  assumes missing: "\<forall>c\<in>set columns. name c \<noteq> ''Recently Merged''"
  shows "reduceRecentlyMerged env columns = (Inl (NoRecentlyMerged (map name columns)), [])
       \<and> (\<not> dry a \<and> cleanup a \<and> getProjectBoardCards env = Inr columns \<longrightarrow>
            cleanupAndReport env a ids fs =
              (Inl (NoRecentlyMerged (map name columns)),
               [Log_CleaningUpCards, Call_getProjectBoardCards]))
       \<and> (\<not> dry a \<and> cleanup a \<and> getProjectBoardCards env = Inr columns
            \<and> coerce tokens = Inr (positional a)
            \<and> getAllOpenPRsAndCardIDs env = Inr (prs, ids)
            \<and> processPRs env a prs prs [] = (Inr fs, tr1) \<longrightarrow>
            main env a tokens =
              (1, [Log_GettingOpenPRs, Call_getAllOpenPRsAndCardIDs] @ tr1
                  @ [Log_CleaningUpCards, Call_getProjectBoardCards,
                     Err_Top (NoRecentlyMerged (map name columns))]))"
proof -
  have none: "find (\<lambda>c. name c = ''Recently Merged'') columns = None"
    using missing by (simp add: find_None_iff)
  then have red: "reduceRecentlyMerged env columns = (Inl (NoRecentlyMerged (map name columns)), [])"
    by (rule reduceRecentlyMerged_missing)
  have cl: "\<not> dry a \<and> cleanup a \<and> getProjectBoardCards env = Inr columns \<longrightarrow>
            cleanupAndReport env a ids fs =
              (Inl (NoRecentlyMerged (map name columns)),
               [Log_CleaningUpCards, Call_getProjectBoardCards])"
    using none by (simp add: cleanupAndReport_missing)
  have run: "\<not> dry a \<and> cleanup a \<and> getProjectBoardCards env = Inr columns
            \<and> coerce tokens = Inr (positional a)
            \<and> getAllOpenPRsAndCardIDs env = Inr (prs, ids)
            \<and> processPRs env a prs prs [] = (Inr fs, tr1) \<longrightarrow>
            main env a tokens =
              (1, [Log_GettingOpenPRs, Call_getAllOpenPRsAndCardIDs] @ tr1
                  @ [Log_CleaningUpCards, Call_getProjectBoardCards,
                     Err_Top (NoRecentlyMerged (map name columns))])"
  proof
    assume h: "\<not> dry a \<and> cleanup a \<and> getProjectBoardCards env = Inr columns
            \<and> coerce tokens = Inr (positional a)
            \<and> getAllOpenPRsAndCardIDs env = Inr (prs, ids)
            \<and> processPRs env a prs prs [] = (Inr fs, tr1)"
    note h1 = conjunct1 [OF h] and r1 = conjunct2 [OF h]
    note h2 = conjunct1 [OF r1] and r2 = conjunct2 [OF r1]
    note h3 = conjunct1 [OF r2] and r3 = conjunct2 [OF r2]
    note h4 = conjunct1 [OF r3] and r4 = conjunct2 [OF r3]
    note h5 = conjunct1 [OF r4] and h6 = conjunct2 [OF r4]
    have c: "cleanupAndReport env a ids fs =
              (Inl (NoRecentlyMerged (map name columns)),
               [Log_CleaningUpCards, Call_getProjectBoardCards])"
      by (rule cleanupAndReport_missing [OF h1 h2 h3 none])
    have "start env a =
     (fst (cleanupAndReport env a ids fs),
      [Log_GettingOpenPRs, Call_getAllOpenPRsAndCardIDs] @ tr1 @ snd (cleanupAndReport env a ids fs))"
      by (rule start_loop_done [OF h5 h6])
    with c show "main env a tokens =
              (1, [Log_GettingOpenPRs, Call_getAllOpenPRsAndCardIDs] @ tr1
                  @ [Log_CleaningUpCards, Call_getProjectBoardCards,
                     Err_Top (NoRecentlyMerged (map name columns))])"
      by (simp add: main_self [OF h4])
  qed
  show ?thesis
    by (rule conjI [OF red conjI [OF cl run]])
qed

theorem missing_archive_column_is_fatal_witness:
  "name \<lparr> name = ''Needs Maintainer Review'', cards = [] :: nat card list, totalCount = 0 \<rparr>
     \<noteq> ''Recently Merged''
   \<and> \<not> dry flags0 \<and> cleanup flags0
   \<and> getProjectBoardCards
        (env_derive_fails\<lparr>getProjectBoardCards :=
           Inr [\<lparr> name = ''Needs Maintainer Review'', cards = [], totalCount = 0 \<rparr>]\<rparr>)
       = Inr [\<lparr> name = ''Needs Maintainer Review'', cards = [], totalCount = 0 \<rparr>]
   \<and> coerce [] = Inr (positional flags0)
   \<and> getAllOpenPRsAndCardIDs
        (env_derive_fails\<lparr>getProjectBoardCards :=
           Inr [\<lparr> name = ''Needs Maintainer Review'', cards = [], totalCount = 0 \<rparr>]\<rparr>)
       = Inr ([1, 2], [])
   \<and> processPRs
        (env_derive_fails\<lparr>getProjectBoardCards :=
           Inr [\<lparr> name = ''Needs Maintainer Review'', cards = [], totalCount = 0 \<rparr>]\<rparr>)
        flags0 [1, 2] [1, 2] [] =
       (Inr [(Thrown ''bad metadata'', 1)],
        [Log_Processing 1 1 2, Call_getPRInfo 1, Err_Error (Thrown ''bad metadata''),
         Log_Processing 2 2 2, Call_getPRInfo 2, Call_executePrActions [] 2 False])
   \<and> main
        (env_derive_fails\<lparr>getProjectBoardCards :=
           Inr [\<lparr> name = ''Needs Maintainer Review'', cards = [], totalCount = 0 \<rparr>]\<rparr>)
        flags0 [] =
       (1, [Log_GettingOpenPRs, Call_getAllOpenPRsAndCardIDs,
            Log_Processing 1 1 2, Call_getPRInfo 1, Err_Error (Thrown ''bad metadata''),
            Log_Processing 2 2 2, Call_getPRInfo 2, Call_executePrActions [] 2 False,
            Log_CleaningUpCards, Call_getProjectBoardCards,
            Err_Top (NoRecentlyMerged [''Needs Maintainer Review''])])"
proof -
  define col :: "nat column"
    where "col = \<lparr> name = ''Needs Maintainer Review'', cards = [], totalCount = 0 \<rparr>"
  define env where "env = env_derive_fails\<lparr>getProjectBoardCards := Inr [col]\<rparr>"
  have nm: "name col \<noteq> ''Recently Merged''"
    by (simp add: col_def)
  then have missing: "\<forall>c\<in>set [col]. name c \<noteq> ''Recently Merged''"
    by simp
  have fl: "\<not> dry flags0" "cleanup flags0" and tok: "coerce [] = Inr (positional flags0)"
    by (simp_all add: flags0_def)
  have cols: "getProjectBoardCards env = Inr [col]"
    and fetch: "getAllOpenPRsAndCardIDs env = Inr ([1, 2], [])"
    by (simp_all add: env_def env_derive_fails_def env0_def)
  have loop: "processPRs env flags0 [1, 2] [1, 2] [] =
       (Inr [(Thrown ''bad metadata'', 1)],
        [Log_Processing 1 1 2, Call_getPRInfo 1, Err_Error (Thrown ''bad metadata''),
         Log_Processing 2 2 2, Call_getPRInfo 2, Call_executePrActions [] 2 False])"
    by (simp add: run_simps env_def env_derive_fails_def)
  note t = missing_archive_column_is_fatal [OF missing, where a = flags0 and env = env
      and tokens = "[]" and ids = "[]" and prs = "[1, 2]"]
  have c: "main env flags0 [] =
       (1, [Log_GettingOpenPRs, Call_getAllOpenPRsAndCardIDs,
            Log_Processing 1 1 2, Call_getPRInfo 1, Err_Error (Thrown ''bad metadata''),
            Log_Processing 2 2 2, Call_getPRInfo 2, Call_executePrActions [] 2 False,
            Log_CleaningUpCards, Call_getProjectBoardCards,
            Err_Top (NoRecentlyMerged [''Needs Maintainer Review''])])"
    using mp [OF conjunct2 [OF conjunct2 [OF t]]
        conjI [OF fl(1) conjI [OF fl(2) conjI [OF cols conjI [OF tok conjI [OF fetch loop]]]]]]
    by (simp add: col_def)
  show ?thesis
    using nm fl cols tok fetch loop c
    unfolding env_def col_def by (intro conjI)
qed

section \<open>Claims about the cleanup\<close>

text \<open>
  C1.  The code on a column of 73 cards, fetched newest first, whose time stamps are
  1 (the oldest) to 73 (the newest): the cards selected by line 139 are those with the
  time stamps 51 to 73, and exactly these 23 most recently updated cards are deleted,
  while the 50 oldest are kept.  The claim, and the message of line 141
  (\<^verbatim>\<open>Cutting "Recently Merged" projects to the last 50\<close>), say the opposite: the 23
  oldest deleted, the 50 newest kept.
\<close>

theorem archive_of_73_deletes_the_23_newest:
  "map updatedAt (afterFirst50 (cards (archive_column (rev [1..<74]) 73))) = [51..<74]
   \<and> reduceRecentlyMerged env0 [archive_column (rev [1..<74]) 73]
       = (Inr (), Log_Cutting # map (\<lambda>t. Mutate_deleteProjectCard (show_nat t)) [51..<74])"
  by code_simp

text \<open>
  C7, as stated, fails: an archive column of which 3 cards were fetched and which reports
  a total of 60 is reduced without any warning (and without any deletion).
\<close>

theorem undercount_without_warning_counterexample:
  "int (length (cards (archive_column [3, 1, 2] 60))) < totalCount (archive_column [3, 1, 2] 60)
   \<and> reduceRecentlyMerged env0 [archive_column [3, 1, 2] 60] = (Inr (), [])"
  by (simp add: reduceRecentlyMerged_def afterFirst50_def archive_column_def)

text \<open>
  C7, amended.  The warning is inside the branch that cuts the column (lines 140-144):
  when more than 50 cards of the archive column were fetched and the reported total
  exceeds the number fetched, the reconciler announces the cut, warns with the number of
  unseen cards and then proceeds to delete from the fetched cards; when more than 50
  were fetched and the total does not exceed them it cuts without warning; when 50 or
  fewer were fetched nothing is emitted, whatever the reported total.
\<close>

theorem undercount_warning_only_when_cutting:
  assumes found: "find (\<lambda>col. name col = ''Recently Merged'') columns = Some c"
  shows "(50 < length (cards c) \<and> int (length (cards c)) < totalCount c \<longrightarrow>
            reduceRecentlyMerged env columns =
              (fst (deleteAll env (map cardId (afterFirst50 (cards c)))),
               [Log_Cutting, Warn_NotSeen (totalCount c - int (length (cards c)))]
               @ snd (deleteAll env (map cardId (afterFirst50 (cards c))))))
       \<and> (50 < length (cards c) \<and> totalCount c \<le> int (length (cards c)) \<longrightarrow>
            reduceRecentlyMerged env columns =
              (fst (deleteAll env (map cardId (afterFirst50 (cards c)))),
               Log_Cutting # snd (deleteAll env (map cardId (afterFirst50 (cards c))))))
       \<and> (length (cards c) \<le> 50 \<longrightarrow> reduceRecentlyMerged env columns = (Inr (), []))"
  using found by (simp add: reduceRecentlyMerged_def Let_def afterFirst50_def)

theorem undercount_warning_only_when_cutting_witness:
  "find (\<lambda>col. name col = ''Recently Merged'') [archive_column [1..<52] 60]
     = Some (archive_column [1..<52] 60)
   \<and> 50 < length (cards (archive_column [1..<52] 60))
   \<and> int (length (cards (archive_column [1..<52] 60))) < totalCount (archive_column [1..<52] 60)
   \<and> deleteAll env0 (map cardId (afterFirst50 (cards (archive_column [1..<52] 60))))
       = (Inr (), [Mutate_deleteProjectCard ''51''])
   \<and> reduceRecentlyMerged env0 [archive_column [1..<52] 60]
       = (Inr (), [Log_Cutting, Warn_NotSeen 9, Mutate_deleteProjectCard ''51''])"
proof -
  have found: "find (\<lambda>col. name col = ''Recently Merged'') [archive_column [1..<52] 60]
     = Some (archive_column [1..<52] 60)"
    by (simp add: archive_column_def)
  have len: "50 < length (cards (archive_column [1..<52] 60))"
    and tot: "int (length (cards (archive_column [1..<52] 60))) < totalCount (archive_column [1..<52] 60)"
    by (simp_all add: archive_column_def)
  have del: "deleteAll env0 (map cardId (afterFirst50 (cards (archive_column [1..<52] 60))))
       = (Inr (), [Mutate_deleteProjectCard ''51''])"
    by code_simp
  have n: "totalCount (archive_column [1..<52] 60) - int (length (cards (archive_column [1..<52] 60))) = 9"
    by (simp add: archive_column_def)
  note t = undercount_warning_only_when_cutting [OF found, of env0]
  have c: "reduceRecentlyMerged env0 [archive_column [1..<52] 60]
       = (Inr (), [Log_Cutting, Warn_NotSeen 9, Mutate_deleteProjectCard ''51''])"
    using mp [OF conjunct1 [OF t] conjI [OF len tot]] by (simp only: del n fst_conv snd_conv append.simps)
  show ?thesis
    by (intro conjI found len tot del c)
qed

text \<open>
  C2.  In the loop over the other columns, a delete mutation is submitted for a card id
  only if the lookup of that id returned a PR whose state is \<^verbatim>\<open>CLOSED\<close>.  For a card of
  a non-archive column whose id is not among the card ids of the open PRs, in a cleanup
  that is not cut short by an exception: if the lookup returns \<^verbatim>\<open>undefined\<close> the card is
  logged as \<^verbatim>\<open>Should delete\<close> with \<^verbatim>\<open>???\<close> and no delete mutation is submitted for it;
  if it returns a PR that is not closed the card is logged with \<^verbatim>\<open>#\<close> and the PR number
  and no delete mutation is submitted for it; if it returns a closed PR the deletion is
  submitted.  Over the whole run, a card deletion is submitted only for an id whose
  lookup returns a closed PR or that is among the cards cut from the archive column.
\<close>

theorem only_closed_prs_are_deleted:
  "(Mutate_deleteProjectCard i \<in> set (snd (handleColumns env cardIDs columns)) \<longrightarrow>
      (\<exists>p. runQueryToGetPRForCardId env i = Inr (Some p) \<and> state p = CLOSED))
   \<and> (col \<in> set columns \<and> name col \<noteq> ''Recently Merged'' \<and> c \<in> set (cards col)
        \<and> cardId c \<notin> set cardIDs \<and> fst (handleColumns env cardIDs columns) = Inr () \<longrightarrow>
        (runQueryToGetPRForCardId env (cardId c) = Inr None \<longrightarrow>
           Log_ShouldDelete (cardId c) ''???'' \<in> set (snd (handleColumns env cardIDs columns))
           \<and> Mutate_deleteProjectCard (cardId c) \<notin> set (snd (handleColumns env cardIDs columns)))
        \<and> (\<forall>p. runQueryToGetPRForCardId env (cardId c) = Inr (Some p) \<and> state p \<noteq> CLOSED \<longrightarrow>
              Log_ShouldDelete (cardId c) (CHR ''#'' # show_int (number p))
                \<in> set (snd (handleColumns env cardIDs columns))
              \<and> Mutate_deleteProjectCard (cardId c) \<notin> set (snd (handleColumns env cardIDs columns)))
        \<and> (\<forall>p. runQueryToGetPRForCardId env (cardId c) = Inr (Some p) \<and> state p = CLOSED \<longrightarrow>
              Mutate_deleteProjectCard (cardId c) \<in> set (snd (handleColumns env cardIDs columns))))
   \<and> (Mutate_deleteProjectCard i \<in> set (snd (main env a tokens)) \<longrightarrow>
        (\<exists>p. runQueryToGetPRForCardId env i = Inr (Some p) \<and> state p = CLOSED)
        \<or> (\<exists>cols arch. getProjectBoardCards env = Inr cols
              \<and> find (\<lambda>k. name k = ''Recently Merged'') cols = Some arch
              \<and> i \<in> cardId ` set (afterFirst50 (cards arch))))"
proof -
  let ?tr = "snd (handleColumns env cardIDs columns)"
  have only: "Mutate_deleteProjectCard j \<in> set ?tr \<longrightarrow>
      (\<exists>p. runQueryToGetPRForCardId env j = Inr (Some p) \<and> state p = CLOSED)" for j
    using handleColumns_Mutate [of j env cardIDs columns] by blast
  have each: "col \<in> set columns \<and> name col \<noteq> ''Recently Merged'' \<and> c \<in> set (cards col)
        \<and> cardId c \<notin> set cardIDs \<and> fst (handleColumns env cardIDs columns) = Inr () \<longrightarrow>
        (runQueryToGetPRForCardId env (cardId c) = Inr None \<longrightarrow>
           Log_ShouldDelete (cardId c) ''???'' \<in> set ?tr
           \<and> Mutate_deleteProjectCard (cardId c) \<notin> set ?tr)
        \<and> (\<forall>p. runQueryToGetPRForCardId env (cardId c) = Inr (Some p) \<and> state p \<noteq> CLOSED \<longrightarrow>
              Log_ShouldDelete (cardId c) (CHR ''#'' # show_int (number p)) \<in> set ?tr
              \<and> Mutate_deleteProjectCard (cardId c) \<notin> set ?tr)
        \<and> (\<forall>p. runQueryToGetPRForCardId env (cardId c) = Inr (Some p) \<and> state p = CLOSED \<longrightarrow>
              Mutate_deleteProjectCard (cardId c) \<in> set ?tr)"
  proof
    assume h: "col \<in> set columns \<and> name col \<noteq> ''Recently Merged'' \<and> c \<in> set (cards col)
        \<and> cardId c \<notin> set cardIDs \<and> fst (handleColumns env cardIDs columns) = Inr ()"
    then have stale: "cardId c \<in> set (staleIds cardIDs col)"
      by (simp add: staleIds_iff)
    from h have "fst (handleColumns env cardIDs columns) = Inr ()" "col \<in> set columns"
      "name col \<noteq> ''Recently Merged''" by simp_all
    from handleColumns_done [OF this stale] obtain info where
      info: "runQueryToGetPRForCardId env (cardId c) = Inr info"
      and sub: "set (snd (deleteObject env (cardId c) (shoulda_of info))) \<subseteq> set ?tr"
      by blast
    have unknown: "runQueryToGetPRForCardId env (cardId c) = Inr None \<longrightarrow>
           Log_ShouldDelete (cardId c) ''???'' \<in> set ?tr
           \<and> Mutate_deleteProjectCard (cardId c) \<notin> set ?tr"
    proof
      assume n: "runQueryToGetPRForCardId env (cardId c) = Inr None"
      with info have "info = None" by simp
      then have "Log_ShouldDelete (cardId c) ''???''
          \<in> set (snd (deleteObject env (cardId c) (shoulda_of info)))"
        by (simp add: deleteObject_Log shoulda_of_def)
      with sub have "Log_ShouldDelete (cardId c) ''???'' \<in> set ?tr" by blast
      moreover have "Mutate_deleteProjectCard (cardId c) \<notin> set ?tr"
        using only [of "cardId c"] n by auto
      ultimately show "Log_ShouldDelete (cardId c) ''???'' \<in> set ?tr
           \<and> Mutate_deleteProjectCard (cardId c) \<notin> set ?tr" by simp
    qed
    have notclosed: "\<forall>p. runQueryToGetPRForCardId env (cardId c) = Inr (Some p) \<and> state p \<noteq> CLOSED \<longrightarrow>
              Log_ShouldDelete (cardId c) (CHR ''#'' # show_int (number p)) \<in> set ?tr
              \<and> Mutate_deleteProjectCard (cardId c) \<notin> set ?tr"
    proof (intro allI impI)
      fix p
      assume n: "runQueryToGetPRForCardId env (cardId c) = Inr (Some p) \<and> state p \<noteq> CLOSED"
      with info have "info = Some p" by simp
      with n have "Log_ShouldDelete (cardId c) (CHR ''#'' # show_int (number p))
          \<in> set (snd (deleteObject env (cardId c) (shoulda_of info)))"
        by (simp add: deleteObject_Log shoulda_of_def)
      with sub have "Log_ShouldDelete (cardId c) (CHR ''#'' # show_int (number p)) \<in> set ?tr"
        by blast
      moreover have "Mutate_deleteProjectCard (cardId c) \<notin> set ?tr"
        using only [of "cardId c"] n by auto
      ultimately show "Log_ShouldDelete (cardId c) (CHR ''#'' # show_int (number p)) \<in> set ?tr
              \<and> Mutate_deleteProjectCard (cardId c) \<notin> set ?tr" by simp
    qed
    have closed: "\<forall>p. runQueryToGetPRForCardId env (cardId c) = Inr (Some p) \<and> state p = CLOSED \<longrightarrow>
              Mutate_deleteProjectCard (cardId c) \<in> set ?tr"
    proof (intro allI impI)
      fix p
      assume n: "runQueryToGetPRForCardId env (cardId c) = Inr (Some p) \<and> state p = CLOSED"
      with info have "info = Some p" by simp
      with n have "Mutate_deleteProjectCard (cardId c)
          \<in> set (snd (deleteObject env (cardId c) (shoulda_of info)))"
        by (simp add: deleteObject_Mutate shoulda_of_def)
      with sub show "Mutate_deleteProjectCard (cardId c) \<in> set ?tr" by blast
    qed
    from unknown notclosed closed
    show "(runQueryToGetPRForCardId env (cardId c) = Inr None \<longrightarrow>
           Log_ShouldDelete (cardId c) ''???'' \<in> set ?tr
           \<and> Mutate_deleteProjectCard (cardId c) \<notin> set ?tr)
        \<and> (\<forall>p. runQueryToGetPRForCardId env (cardId c) = Inr (Some p) \<and> state p \<noteq> CLOSED \<longrightarrow>
              Log_ShouldDelete (cardId c) (CHR ''#'' # show_int (number p)) \<in> set ?tr
              \<and> Mutate_deleteProjectCard (cardId c) \<notin> set ?tr)
        \<and> (\<forall>p. runQueryToGetPRForCardId env (cardId c) = Inr (Some p) \<and> state p = CLOSED \<longrightarrow>
              Mutate_deleteProjectCard (cardId c) \<in> set ?tr)"
      by (intro conjI)
  qed
  have run: "Mutate_deleteProjectCard i \<in> set (snd (main env a tokens)) \<longrightarrow>
        (\<exists>p. runQueryToGetPRForCardId env i = Inr (Some p) \<and> state p = CLOSED)
        \<or> (\<exists>cols arch. getProjectBoardCards env = Inr cols
              \<and> find (\<lambda>k. name k = ''Recently Merged'') cols = Some arch
              \<and> i \<in> cardId ` set (afterFirst50 (cards arch)))"
  proof
    assume "Mutate_deleteProjectCard i \<in> set (snd (main env a tokens))"
    from main_Mutate [OF this] obtain a' where
      "Mutate_deleteProjectCard i \<in> set (snd (start env a'))" ..
    from start_Mutate [OF this] obtain prs ids cols where
      cols: "getProjectBoardCards env = Inr cols"
      and m: "Mutate_deleteProjectCard i \<in> set (snd (reduceRecentlyMerged env cols))
              \<or> Mutate_deleteProjectCard i \<in> set (snd (handleColumns env ids cols))"
      by blast
    from m show "(\<exists>p. runQueryToGetPRForCardId env i = Inr (Some p) \<and> state p = CLOSED)
        \<or> (\<exists>cols arch. getProjectBoardCards env = Inr cols
              \<and> find (\<lambda>k. name k = ''Recently Merged'') cols = Some arch
              \<and> i \<in> cardId ` set (afterFirst50 (cards arch)))"
    proof
      assume "Mutate_deleteProjectCard i \<in> set (snd (reduceRecentlyMerged env cols))"
      from reduceRecentlyMerged_Mutate [OF this] cols show ?thesis by blast
    next
      assume "Mutate_deleteProjectCard i \<in> set (snd (handleColumns env ids cols))"
      from handleColumns_Mutate [OF this] show ?thesis by blast
    qed
  qed
  show ?thesis
    by (rule conjI [OF only conjI [OF each run]])
qed

theorem only_closed_prs_are_deleted_witness:
  "needs_author_action \<in> set board_with_stale_cards
   \<and> name needs_author_action \<noteq> ''Recently Merged''
   \<and> handleColumns env_stale_cards [''d''] board_with_stale_cards =
       (Inr (),
        [Log_CleaningUpColumn ''Needs Author Action'',
         Call_runQueryToGetPRForCardId ''a'', Log_ShouldDelete ''a'' ''???'',
         Call_runQueryToGetPRForCardId ''b'', Log_ShouldDelete ''b'' ''#7'',
         Call_runQueryToGetPRForCardId ''c'', Mutate_deleteProjectCard ''c''])
   \<and> runQueryToGetPRForCardId env_stale_cards ''a'' = Inr None
   \<and> Log_ShouldDelete ''a'' ''???''
        \<in> set (snd (handleColumns env_stale_cards [''d''] board_with_stale_cards))
   \<and> Mutate_deleteProjectCard ''a''
        \<notin> set (snd (handleColumns env_stale_cards [''d''] board_with_stale_cards))
   \<and> runQueryToGetPRForCardId env_stale_cards ''b'' = Inr (Some \<lparr> number = 7, state = OPEN \<rparr>)
   \<and> Log_ShouldDelete ''b'' (CHR ''#'' # show_int 7)
        \<in> set (snd (handleColumns env_stale_cards [''d''] board_with_stale_cards))
   \<and> Mutate_deleteProjectCard ''b''
        \<notin> set (snd (handleColumns env_stale_cards [''d''] board_with_stale_cards))
   \<and> runQueryToGetPRForCardId env_stale_cards ''c'' = Inr (Some \<lparr> number = 9, state = CLOSED \<rparr>)
   \<and> Mutate_deleteProjectCard ''c''
        \<in> set (snd (handleColumns env_stale_cards [''d''] board_with_stale_cards))
   \<and> Mutate_deleteProjectCard ''c'' \<in> set (snd (main env_stale_cards flags0 []))
   \<and> (\<exists>p. runQueryToGetPRForCardId env_stale_cards ''c'' = Inr (Some p) \<and> state p = CLOSED)"
proof -
  let ?tr = "snd (handleColumns env_stale_cards [''d''] board_with_stale_cards)"
  have col: "needs_author_action \<in> set board_with_stale_cards"
    and nm: "name needs_author_action \<noteq> ''Recently Merged''"
    by (simp_all add: board_with_stale_cards_def needs_author_action_def)
  have run: "handleColumns env_stale_cards [''d''] board_with_stale_cards =
       (Inr (),
        [Log_CleaningUpColumn ''Needs Author Action'',
         Call_runQueryToGetPRForCardId ''a'', Log_ShouldDelete ''a'' ''???'',
         Call_runQueryToGetPRForCardId ''b'', Log_ShouldDelete ''b'' ''#7'',
         Call_runQueryToGetPRForCardId ''c'', Mutate_deleteProjectCard ''c''])"
    by code_simp
  then have ok: "fst (handleColumns env_stale_cards [''d''] board_with_stale_cards) = Inr ()"
    by simp
  have la: "runQueryToGetPRForCardId env_stale_cards ''a'' = Inr None"
    and lb: "runQueryToGetPRForCardId env_stale_cards ''b'' = Inr (Some \<lparr> number = 7, state = OPEN \<rparr>)"
    and lc: "runQueryToGetPRForCardId env_stale_cards ''c'' = Inr (Some \<lparr> number = 9, state = CLOSED \<rparr>)"
    by (simp_all add: env_stale_cards_def env0_def)
  have ca: "\<lparr> cardId = ''a'', updatedAt = 1 \<rparr> \<in> set (cards needs_author_action)"
    and cb: "\<lparr> cardId = ''b'', updatedAt = 2 \<rparr> \<in> set (cards needs_author_action)"
    and cc: "\<lparr> cardId = ''c'', updatedAt = 3 \<rparr> \<in> set (cards needs_author_action)"
    by (simp_all add: needs_author_action_def)
  have na: "cardId \<lparr> cardId = ''a'', updatedAt = 1::nat \<rparr> \<notin> set [''d'']"
    and nb: "cardId \<lparr> cardId = ''b'', updatedAt = 2::nat \<rparr> \<notin> set [''d'']"
    and nc: "cardId \<lparr> cardId = ''c'', updatedAt = 3::nat \<rparr> \<notin> set [''d'']"
    by simp_all
  note ta = only_closed_prs_are_deleted [where env = env_stale_cards and cardIDs = "[''d'']"
      and columns = board_with_stale_cards and col = needs_author_action
      and c = "\<lparr> cardId = ''a'', updatedAt = 1 \<rparr>"]
  note tb = only_closed_prs_are_deleted [where env = env_stale_cards and cardIDs = "[''d'']"
      and columns = board_with_stale_cards and col = needs_author_action
      and c = "\<lparr> cardId = ''b'', updatedAt = 2 \<rparr>"]
  note tc = only_closed_prs_are_deleted [where env = env_stale_cards and cardIDs = "[''d'']"
      and columns = board_with_stale_cards and col = needs_author_action
      and c = "\<lparr> cardId = ''c'', updatedAt = 3 \<rparr>" and i = "''c''"
      and a = flags0 and tokens = "[]"]
  from mp [OF conjunct1 [OF conjunct2 [OF ta]] conjI [OF col conjI [OF nm conjI [OF ca conjI [OF na ok]]]]]
  have ra: "Log_ShouldDelete ''a'' ''???'' \<in> set ?tr \<and> Mutate_deleteProjectCard ''a'' \<notin> set ?tr"
    using la by simp
  from mp [OF conjunct1 [OF conjunct2 [OF tb]] conjI [OF col conjI [OF nm conjI [OF cb conjI [OF nb ok]]]]]
  have rb: "Log_ShouldDelete ''b'' (CHR ''#'' # show_int 7) \<in> set ?tr
      \<and> Mutate_deleteProjectCard ''b'' \<notin> set ?tr"
    using lb by simp
  from mp [OF conjunct1 [OF conjunct2 [OF tc]] conjI [OF col conjI [OF nm conjI [OF cc conjI [OF nc ok]]]]]
  have rc: "Mutate_deleteProjectCard ''c'' \<in> set ?tr"
    using lc by simp
  have mm: "Mutate_deleteProjectCard ''c'' \<in> set (snd (main env_stale_cards flags0 []))"
    by code_simp
  from mp [OF conjunct1 [OF tc] rc]
  have ex: "\<exists>p. runQueryToGetPRForCardId env_stale_cards ''c'' = Inr (Some p) \<and> state p = CLOSED" .
  from mp [OF conjunct2 [OF conjunct2 [OF tc]] mm]
  have "(\<exists>p. runQueryToGetPRForCardId env_stale_cards ''c'' = Inr (Some p) \<and> state p = CLOSED)
        \<or> (\<exists>cols arch. getProjectBoardCards env_stale_cards = Inr cols
              \<and> find (\<lambda>k. name k = ''Recently Merged'') cols = Some arch
              \<and> ''c'' \<in> cardId ` set (afterFirst50 (cards arch)))" .
  show ?thesis
    by (intro conjI col nm run la conjunct1 [OF ra] conjunct2 [OF ra] lb
        conjunct1 [OF rb] conjunct2 [OF rb] lc rc mm ex)
qed

end
